theory Spec2Isabelle
  imports Main "HOL-Library.Char_ord" "HOL-Library.List_Lexorder" "HOL-Library.Multiset"
begin

section \<open>Strings and the regular expressions of the fetcher\<close>

text \<open>
  A Python \<open>str\<close> is a sequence of code points. It is modelled as a \<^typ>\<open>string\<close>, one
  \<^typ>\<open>char\<close> per code point, so the model ranges over the code points 0 to 255
  (Latin-1). On that range the three character classes below are the ones
  CPython's \<open>re\<close> and \<open>str\<close> use for \<open>str\<close> patterns: \<open>\s\<close> and \<open>str.strip()\<close> test
  \<open>str.isspace\<close>, \<open>\w\<close> tests \<open>str.isalnum\<close> or the underscore, and \<open>str.lower\<close> maps
  character by character.
\<close>

definition is_space :: "char \<Rightarrow> bool" where
  "is_space c =
     (let n = (of_char c :: nat)
      in (9 \<le> n \<and> n \<le> 13) \<or> (28 \<le> n \<and> n \<le> 32) \<or> n = 133 \<or> n = 160)"

definition is_alnum :: "char \<Rightarrow> bool" where
  "is_alnum c =
     (let n = (of_char c :: nat)
      in (48 \<le> n \<and> n \<le> 57) \<or> (65 \<le> n \<and> n \<le> 90) \<or> (97 \<le> n \<and> n \<le> 122)
         \<or> n = 170 \<or> n = 178 \<or> n = 179 \<or> n = 181 \<or> n = 185 \<or> n = 186
         \<or> (188 \<le> n \<and> n \<le> 190) \<or> (192 \<le> n \<and> n \<le> 214)
         \<or> (216 \<le> n \<and> n \<le> 246) \<or> 248 \<le> n)"

definition is_word :: "char \<Rightarrow> bool" where
  "is_word c = (is_alnum c \<or> c = CHR ''_'')"

definition lower_char :: "char \<Rightarrow> char" where
  "lower_char c =
     (let n = (of_char c :: nat)
      in if (65 \<le> n \<and> n \<le> 90) \<or> (192 \<le> n \<and> n \<le> 222 \<and> n \<noteq> 215)
         then char_of (n + 32) else c)"

definition lower :: "string \<Rightarrow> string" where
  "lower s = map lower_char s"

text \<open>
  \<open>re.sub(r"[...]+", r, s)\<close> for a one-character class: every maximal run of
  characters of the class is replaced by the single character \<open>r\<close>.
\<close>

function sub_runs :: "(char \<Rightarrow> bool) \<Rightarrow> char \<Rightarrow> string \<Rightarrow> string" where
  "sub_runs p r [] = []"
| "sub_runs p r (c # cs) =
     (if p c then r # sub_runs p r (dropWhile p cs) else c # sub_runs p r cs)"
  by pat_completeness auto
termination
proof (relation "measure (\<lambda>(p, r, s). length s)")
  show "wf (measure (\<lambda>(p :: char \<Rightarrow> bool, r :: char, s :: string). length s))" by simp
next
  fix p :: "char \<Rightarrow> bool" and r c :: char and cs :: string
  have "length (dropWhile p cs) \<le> length cs" by (rule length_dropWhile_le)
  then show "((p, r, dropWhile p cs), (p, r, c # cs)) \<in> measure (\<lambda>(p, r, s). length s)"
    by simp
next
  fix p :: "char \<Rightarrow> bool" and r c :: char and cs :: string
  show "((p, r, cs), (p, r, c # cs)) \<in> measure (\<lambda>(p, r, s). length s)" by simp
qed

text \<open>\<open>s.strip(chars)\<close>: the characters of the class are removed from both ends.\<close>

definition strip_chars :: "(char \<Rightarrow> bool) \<Rightarrow> string \<Rightarrow> string" where
  "strip_chars p s = rev (dropWhile p (rev (dropWhile p s)))"

text \<open>
  \<open>re.sub(r"<[^>]+>", "", s)\<close>: scanning from the left, a \<open><\<close> followed by at least
  one character other than \<open>>\<close> and then a \<open>>\<close> is removed up to and including that
  first \<open>>\<close>; any other character is kept.
\<close>

function strip_tags :: "string \<Rightarrow> string" where
  "strip_tags [] = []"
| "strip_tags (c # cs) =
     (if c = CHR ''<'' \<and> takeWhile (\<lambda>x. x \<noteq> CHR ''>'') cs \<noteq> []
         \<and> dropWhile (\<lambda>x. x \<noteq> CHR ''>'') cs \<noteq> []
      then strip_tags (tl (dropWhile (\<lambda>x. x \<noteq> CHR ''>'') cs))
      else c # strip_tags cs)"
  by pat_completeness auto
termination
proof (relation "measure length")
  show "wf (measure length)" by simp
next
  fix c :: char and cs :: string
  have "length (tl (dropWhile (\<lambda>x. x \<noteq> CHR ''>'') cs)) \<le> length cs"
    using length_dropWhile_le [of "\<lambda>x. x \<noteq> CHR ''>''" cs] by simp
  then show "(tl (dropWhile (\<lambda>x. x \<noteq> CHR ''>'') cs), c # cs) \<in> measure length"
    by simp
next
  fix c :: char and cs :: string
  show "(cs, c # cs) \<in> measure length" by simp
qed

text \<open>\<open>s[:n]\<close> for a Python integer \<open>n\<close>: a negative \<open>n\<close> counts from the end.\<close>

definition slice_to :: "int \<Rightarrow> string \<Rightarrow> string" where
  "slice_to n s = (if 0 \<le> n then take (nat n) s else take (length s - nat (- n)) s)"

text \<open>
  \<open>s.rsplit(sep, 1)[0]\<close> for a one-character separator: the part before the last
  occurrence of the separator, the whole string when there is none.
\<close>

definition rsplit_head :: "char \<Rightarrow> string \<Rightarrow> string" where
  "rsplit_head sep s =
     (if sep \<in> set s then rev (tl (dropWhile (\<lambda>x. x \<noteq> sep) (rev s))) else s)"

section \<open>The environment of the scripts\<close>

text \<open>
  The libraries the scripts call are not part of the repository. Their functions are
  fields of an environment, and every theorem holds for every environment. A call that
  can raise returns a sum, \<open>Inl\<close> the exception; the exceptions are those an
  \<open>except Exception\<close> clause catches. Calls that read the clock or the network take the
  number of the call as their first argument, so that two calls may answer differently.
  Of what the scripts print, the lines written to \<open>stderr\<close> and the lines about skipped
  files are kept; the progress lines on \<open>stdout\<close> are left out.
\<close>

datatype exn = KeyError string | TypeError string | Exception string

fun exn_str :: "exn \<Rightarrow> string" where
  "exn_str (KeyError k) = [CHR 0x27] @ k @ [CHR 0x27]"
| "exn_str (TypeError m) = m"
| "exn_str (Exception m) = m"

text \<open>
  A \<open>datetime\<close>: the reading of its own clock fields, counted in microseconds, and the
  offset of its \<open>tzinfo\<close> from UTC, \<open>None\<close> for a naive value.
\<close>

record datetime =
  wallclock :: int
  tzinfo :: "int option"

text \<open>
  \<open>a < b\<close> on datetimes: two aware values compare by their instants, two naive values
  by their fields, and a naive value against an aware one raises \<open>TypeError\<close>.
\<close>

definition dt_less :: "datetime \<Rightarrow> datetime \<Rightarrow> exn + bool" where
  "dt_less a b =
     (case (tzinfo a, tzinfo b) of
        (Some x, Some y) \<Rightarrow> Inr (wallclock a - x < wallclock b - y)
      | (None, None) \<Rightarrow> Inr (wallclock a < wallclock b)
      | _ \<Rightarrow> Inl (TypeError ''can't compare offset-naive and offset-aware datetimes''))"

type_synonym entry = "string \<rightharpoonup> string"

text \<open>
  An Article as the builder reads it from a file: the metadata of the file and the key
  \<open>body\<close>. The values are taken to be strings, as \<open>write_article\<close> writes them. The
  arguments of the three \<open>render\<close> calls are the contexts of the templates.
\<close>

type_synonym stored = "string \<rightharpoonup> string"

datatype ctx =
  IndexCtx "stored list" "(string \<times> stored list) list"
| ArticleCtx stored
| ArchiveCtx "(string \<times> stored list) list" nat

record parsed =
  bozo :: bool
  bozo_exception :: string
  entries :: "entry list"

record env =
  unescape :: "string \<Rightarrow> string"
  md5_hexdigest :: "string \<Rightarrow> string"
  dateparser_parse :: "string \<Rightarrow> exn + datetime"
  strftime :: "string \<Rightarrow> datetime \<Rightarrow> string"
  utcnow :: "nat \<Rightarrow> datetime"
  feedparser_parse :: "nat \<Rightarrow> string \<Rightarrow> exn + parsed"
  ANTHROPIC_API_KEY :: "string option"
  HAS_ANTHROPIC :: bool
  messages_create :: "nat \<Rightarrow> string \<Rightarrow> exn + string"
  fromisoformat :: "string \<Rightarrow> exn + datetime"
  get_template :: "string \<Rightarrow> exn + string"
  render :: "string \<Rightarrow> ctx \<Rightarrow> exn + string"

text \<open>
  Dictionaries read from a feed, a configuration file or an article file are maps from
  keys to strings. \<open>d.get(k, default)\<close>, the truth value of an optional string, and
  Python's \<open>a or b\<close> on two such values:
\<close>

definition get :: "(string \<rightharpoonup> string) \<Rightarrow> string \<Rightarrow> string \<Rightarrow> string" where
  "get d k dflt = (case d k of None \<Rightarrow> dflt | Some v \<Rightarrow> v)"

definition truthy :: "string option \<Rightarrow> bool" where
  "truthy v = (case v of None \<Rightarrow> False | Some s \<Rightarrow> s \<noteq> [])"

definition py_or :: "string option \<Rightarrow> string option \<Rightarrow> string option" where
  "py_or a b = (if truthy a then a else b)"

section \<open>fetch\_feeds.py\<close>

subsection \<open>slugify, article\_id, strip\_html, truncate\_description\<close>

definition slugify :: "env \<Rightarrow> string \<Rightarrow> string" where
  "slugify E text =
     (let t1 = unescape E text;
          t2 = filter (\<lambda>c. is_word c \<or> is_space c \<or> c = CHR ''-'') (lower t1);
          t3 = strip_chars (\<lambda>c. c = CHR ''-'')
                 (sub_runs (\<lambda>c. c = CHR ''-'' \<or> is_space c) (CHR ''-'') t2)
      in take 80 t3)"

definition article_id :: "env \<Rightarrow> string \<Rightarrow> string" where
  "article_id E url = take 12 (md5_hexdigest E url)"

definition strip_html :: "env \<Rightarrow> string \<Rightarrow> string" where
  "strip_html E text =
     (if text = [] then []
      else strip_chars is_space (sub_runs is_space (CHR '' '') (unescape E (strip_tags text))))"

definition truncate_description :: "env \<Rightarrow> string \<Rightarrow> int \<Rightarrow> string" where
  "truncate_description E text max_chars =
     (let t = strip_html E text
      in if int (length t) \<le> max_chars then t
         else rsplit_head (CHR '' '') (slice_to max_chars t) @ ''...'')"

text \<open>
  The cut after the first \<open>k\<close> characters of \<open>s\<close> falls inside a word: the characters on
  both sides of it are not spaces.
\<close>

definition splits_word :: "string \<Rightarrow> nat \<Rightarrow> bool" where
  "splits_word s k =
     (0 < k \<and> k < length s \<and> s ! (k - 1) \<noteq> CHR '' '' \<and> s ! k \<noteq> CHR '' '')"

subsection \<open>summarize\_with\_claude\<close>

definition prompt :: "string \<Rightarrow> string \<Rightarrow> string \<Rightarrow> string" where
  "prompt ttl description src =
     ''Summarize this AI news article in 1-2 concise sentences ''
     @ ''for a news aggregator. Be factual and specific.'' @ [CHR 0x0A, CHR 0x0A]
     @ ''Title: '' @ ttl @ [CHR 0x0A] @ ''Source: '' @ src @ [CHR 0x0A]
     @ ''Description: '' @ slice_to 1000 description"

text \<open>
  The result is the returned value and the lines printed to \<open>stderr\<close>. \<open>messages_create\<close>
  stands for the body of the \<open>try\<close> up to \<open>response.content[0].text\<close>; the \<open>except\<close>
  clause turns whatever it raises into \<open>None\<close>.
\<close>

definition summarize_with_claude ::
  "env \<Rightarrow> nat \<Rightarrow> string \<Rightarrow> string \<Rightarrow> string \<Rightarrow> exn + (string option \<times> string list)" where
  "summarize_with_claude E i ttl description src =
     (if \<not> truthy (ANTHROPIC_API_KEY E) \<or> \<not> HAS_ANTHROPIC E then Inr (None, [])
      else (case messages_create E i (prompt ttl description src) of
              Inr text \<Rightarrow> Inr (Some (strip_chars is_space text), [])
            | Inl e \<Rightarrow> Inr (None, [''  Claude API error: '' @ exn_str e])))"

subsection \<open>fetch\_feed\<close>

record article =
  title :: string
  url :: string
  source :: string
  category :: string
  date :: string
  summary :: string
  slug :: string

text \<open>
  Lines 133 to 145: the publish date of an entry, \<open>None\<close> when the loop body ends at
  \<open>continue\<close>. \<open>i\<close> numbers the iteration, for the clock.
\<close>

definition resolve_pub_date :: "env \<Rightarrow> nat \<Rightarrow> datetime \<Rightarrow> entry \<Rightarrow> datetime option" where
  "resolve_pub_date E i cutoff_date entry =
     (let date_str = py_or (entry ''published'') (entry ''updated'')
      in if truthy date_str then
           (case dateparser_parse E (case date_str of Some s \<Rightarrow> s | None \<Rightarrow> []) of
              Inl e \<Rightarrow> Some (utcnow E i)
            | Inr d \<Rightarrow>
                (let pub_date = (if tzinfo d = None then d\<lparr>tzinfo := Some 0\<rparr> else d)
                 in case dt_less pub_date cutoff_date of
                      Inl e \<Rightarrow> Some (utcnow E i)
                    | Inr older \<Rightarrow> if older then None else Some pub_date))
         else Some (utcnow E i))"



text \<open>Line 148.\<close>

definition entry_description :: "entry \<Rightarrow> string" where
  "entry_description entry =
     (case py_or (py_or (entry ''summary'') (entry ''description'')) (Some []) of
        Some s \<Rightarrow> s
      | None \<Rightarrow> [])"

text \<open>Lines 156 and 157.\<close>

definition make_slug :: "env \<Rightarrow> string \<Rightarrow> datetime \<Rightarrow> string \<Rightarrow> string" where
  "make_slug E ttl pub_date link =
     strftime E ''%Y-%m-%d'' pub_date @ ''-'' @ slugify E ttl @ ''-'' @ article_id E link"

text \<open>
  The body of the loop over the entries, lines 129 to 168: the Article appended, if
  any, and the lines printed to \<open>stderr\<close>.
\<close>

definition process_entry ::
  "env \<Rightarrow> nat \<Rightarrow> string \<Rightarrow> string \<Rightarrow> datetime \<Rightarrow> string set \<Rightarrow> entry
     \<Rightarrow> exn + (article option \<times> string list)" where
  "process_entry E i name cat cutoff_date existing entry =
     (let link = get entry ''link'' []
      in if link = [] \<or> link \<in> existing then Inr (None, [])
         else (case resolve_pub_date E i cutoff_date entry of
                 None \<Rightarrow> Inr (None, [])
               | Some pub_date \<Rightarrow>
                   (let ttl = strip_html E (get entry ''title'' ''Untitled'');
                        description = entry_description entry;
                        description_clean = truncate_description E description 300
                    in case summarize_with_claude E i ttl description_clean name of
                         Inl e \<Rightarrow> Inl e
                       | Inr (s, logged) \<Rightarrow>
                           Inr (Some \<lparr> title = ttl, url = link, source = name, category = cat,
                                        date = strftime E ''%Y-%m-%dT%H:%M:%SZ'' pub_date,
                                        summary = (if truthy s then (case s of Some t \<Rightarrow> t | None \<Rightarrow> [])
                                                   else description_clean),
                                        slug = make_slug E ttl pub_date link \<rparr>,
                                logged))))"

text \<open>
  The state a run threads through its calls: the set \<open>existing_urls\<close>, which every
  \<open>fetch_feed\<close> of a run shares and updates in place, the number of calls made to the
  clock and the network so far, and the lines printed to \<open>stderr\<close>.
\<close>

record run_state =
  existing_urls :: "string set"
  calls :: nat
  stderr :: "string list"

fun fetch_entries ::
  "env \<Rightarrow> string \<Rightarrow> string \<Rightarrow> datetime \<Rightarrow> entry list \<Rightarrow> run_state
     \<Rightarrow> exn + (article list \<times> run_state)" where
  "fetch_entries E name cat cutoff_date [] st = Inr ([], st)"
| "fetch_entries E name cat cutoff_date (entry # rest) st =
     (case process_entry E (calls st) name cat cutoff_date (existing_urls st) entry of
        Inl e \<Rightarrow> Inl e
      | Inr (None, logged) \<Rightarrow>
          fetch_entries E name cat cutoff_date rest
            (st\<lparr>calls := Suc (calls st), stderr := stderr st @ logged\<rparr>)
      | Inr (Some a, logged) \<Rightarrow>
          (case fetch_entries E name cat cutoff_date rest
                  (st\<lparr>existing_urls := insert (url a) (existing_urls st),
                      calls := Suc (calls st), stderr := stderr st @ logged\<rparr>) of
             Inl e \<Rightarrow> Inl e
           | Inr (arts, st') \<Rightarrow> Inr (a # arts, st')))"

definition fetch_feed ::
  "env \<Rightarrow> (string \<rightharpoonup> string) \<Rightarrow> run_state \<Rightarrow> datetime
     \<Rightarrow> exn + (article list \<times> run_state)" where
  "fetch_feed E feed_config st cutoff_date =
     (case feed_config ''name'' of
        None \<Rightarrow> Inl (KeyError ''name'')
      | Some name \<Rightarrow>
     (case feed_config ''url'' of
        None \<Rightarrow> Inl (KeyError ''url'')
      | Some feed_url \<Rightarrow>
     (let cat = get feed_config ''category'' ''general'';
          st1 = st\<lparr>calls := Suc (calls st)\<rparr>
      in case feedparser_parse E (calls st) feed_url of
           Inl e \<Rightarrow>
             Inr ([], st1\<lparr>stderr := stderr st1
                         @ [''  Error parsing '' @ name @ '': '' @ exn_str e]\<rparr>)
         | Inr p \<Rightarrow>
             if bozo p \<and> entries p = [] then
               Inr ([], st1\<lparr>stderr := stderr st1
                           @ [''  Warning: feed error for '' @ name @ '': ''
                              @ bozo_exception p]\<rparr>)
             else fetch_entries E name cat cutoff_date (entries p) st1)))"

text \<open>
  The loop of \<open>main\<close>, lines 198 to 203: the Articles written, in the order they are
  written.
\<close>

fun fetch_all ::
  "env \<Rightarrow> (string \<rightharpoonup> string) list \<Rightarrow> run_state \<Rightarrow> datetime
     \<Rightarrow> exn + (article list \<times> run_state)" where
  "fetch_all E [] st cutoff_date = Inr ([], st)"
| "fetch_all E (feed_config # feeds) st cutoff_date =
     (case fetch_feed E feed_config st cutoff_date of
        Inl e \<Rightarrow> Inl e
      | Inr (arts, st1) \<Rightarrow>
          (case fetch_all E feeds st1 cutoff_date of
             Inl e \<Rightarrow> Inl e
           | Inr (later, st2) \<Rightarrow> Inr (arts @ later, st2)))"

section \<open>build\_site.py\<close>

definition SITE_URL :: string where
  "SITE_URL = ''https://elloloop.github.io/ai-news''"

text \<open>
  \<open>xs.sort(key=f, reverse=True)\<close> and \<open>sorted(xs, reverse=True)\<close>: descending, and elements
  with equal keys keep their order. Strings compare code point by code point.
\<close>

definition sort_desc :: "('a \<Rightarrow> string) \<Rightarrow> 'a list \<Rightarrow> 'a list" where
  "sort_desc f xs = rev (sort_key f (rev xs))"

text \<open>
  The store is the list of the \<open>*.md\<close> files, each with its name and with what
  \<open>frontmatter.load\<close> returns for it, the metadata and the content, or raises.
\<close>

fun load_files ::
  "(string \<times> (exn + (stored \<times> string))) list \<Rightarrow> stored list \<times> string list" where
  "load_files [] = ([], [])"
| "load_files ((name, r) # fs) =
     (case load_files fs of (arts, printed) \<Rightarrow>
        (case r of
           Inl e \<Rightarrow> (arts, (''  Skipping '' @ name @ '': '' @ exn_str e) # printed)
         | Inr (metadata, content) \<Rightarrow> (metadata(''body'' \<mapsto> content) # arts, printed)))"

definition load_articles ::
  "(string \<times> (exn + (stored \<times> string))) list \<Rightarrow> stored list \<times> string list" where
  "load_articles files =
     (case load_files (sort_desc fst files) of (arts, printed) \<Rightarrow>
        (sort_desc (\<lambda>a. get a ''date'' []) arts, printed))"

text \<open>\<open>d.setdefault(k, []).append(a)\<close> on a dictionary, which keeps the order of insertion.\<close>

fun setdefault_append ::
  "string \<Rightarrow> 'a \<Rightarrow> (string \<times> 'a list) list \<Rightarrow> (string \<times> 'a list) list" where
  "setdefault_append k a [] = [(k, [a])]"
| "setdefault_append k a ((k', xs) # d) =
     (if k' = k then (k', xs @ [a]) # d else (k', xs) # setdefault_append k a d)"

definition group_by :: "('a \<Rightarrow> string) \<Rightarrow> 'a list \<Rightarrow> (string \<times> 'a list) list" where
  "group_by f xs = foldl (\<lambda>d a. setdefault_append (f a) a d) [] xs"

definition month_key :: "env \<Rightarrow> stored \<Rightarrow> string" where
  "month_key E a =
     (let date_str = get a ''date'' []
      in case fromisoformat E
                (concat (map (\<lambda>c. if c = CHR ''Z'' then ''+00:00'' else [c]) date_str)) of
           Inl e \<Rightarrow> ''Unknown''
         | Inr dt \<Rightarrow> strftime E ''%B %Y'' dt)"

text \<open>
  Lines 73 to 76: the page of each Article, as the path written under the output
  directory and the text written.
\<close>

definition page_path :: "stored \<Rightarrow> string" where
  "page_path a = ''article/'' @ get a ''slug'' ''untitled'' @ ''.html''"

fun render_pages :: "env \<Rightarrow> string \<Rightarrow> stored list \<Rightarrow> exn + (string \<times> string) list" where
  "render_pages E tmpl [] = Inr []"
| "render_pages E tmpl (a # rest) =
     (case render E tmpl (ArticleCtx a) of
        Inl e \<Rightarrow> Inl e
      | Inr html \<Rightarrow>
          (case render_pages E tmpl rest of
             Inl e \<Rightarrow> Inl e
           | Inr pages \<Rightarrow> Inr ((page_path a, html) # pages)))"

text \<open>Lines 96 to 102: the entries of the sitemap, each a location and a priority.\<close>

definition sitemap_entry :: "stored \<Rightarrow> string \<times> string" where
  "sitemap_entry a = (SITE_URL @ ''/article/'' @ get a ''slug'' [] @ ''.html'', ''0.6'')"

definition sitemap_entries :: "stored list \<Rightarrow> (string \<times> string) list" where
  "sitemap_entries articles =
     foldl (\<lambda>es a. es @ [sitemap_entry a])
       ([(SITE_URL @ ''/'', ''1.0'')] @ [(SITE_URL @ ''/archive.html'', ''0.8'')]) articles"

text \<open>Lines 103 to 108.\<close>

definition url_block :: "string \<times> string \<Rightarrow> string" where
  "url_block e =
     ''  <url>'' @ [CHR 0x0A] @ ''    <loc>'' @ fst e @ ''</loc>'' @ [CHR 0x0A]
     @ ''    <priority>'' @ snd e @ ''</priority>'' @ [CHR 0x0A] @ ''  </url>'' @ [CHR 0x0A]"

definition sitemap_head :: string where
  "sitemap_head =
     ''<?xml version='' @ [CHR 0x22] @ ''1.0'' @ [CHR 0x22] @ '' encoding='' @ [CHR 0x22]
     @ ''UTF-8'' @ [CHR 0x22] @ ''?>'' @ [CHR 0x0A]
     @ ''<urlset xmlns='' @ [CHR 0x22] @ ''http://www.sitemaps.org/schemas/sitemap/0.9''
     @ [CHR 0x22] @ ''>'' @ [CHR 0x0A]"

definition sitemap_xml :: "(string \<times> string) list \<Rightarrow> string" where
  "sitemap_xml es =
     foldl (\<lambda>x e. x @ url_block e) sitemap_head es @ ''</urlset>'' @ [CHR 0x0A]"

definition robots :: string where
  "robots = ''User-agent: *'' @ [CHR 0x0A] @ ''Allow: /'' @ [CHR 0x0A]
            @ ''Sitemap: '' @ SITE_URL @ ''/sitemap.xml'' @ [CHR 0x0A]"

text \<open>
  The result of a build: what it hands to the index template, and the files it writes
  under the output directory, in the order it writes them.
\<close>

record site =
  index_articles :: "stored list"
  index_categories :: "(string \<times> stored list) list"
  files_written :: "(string \<times> string) list"

definition build_site ::
  "env \<Rightarrow> (string \<times> (exn + (stored \<times> string))) list \<Rightarrow> exn + site" where
  "build_site E files =
     (case load_articles files of (articles, printed) \<Rightarrow>
      (let categories = group_by (\<lambda>a. get a ''category'' ''general'') articles
       in case get_template E ''index.html'' of Inl e \<Rightarrow> Inl e | Inr index_tmpl \<Rightarrow>
         (case render E index_tmpl (IndexCtx (take 30 articles) categories) of
            Inl e \<Rightarrow> Inl e | Inr index_html \<Rightarrow>
         (case get_template E ''article.html'' of Inl e \<Rightarrow> Inl e | Inr article_tmpl \<Rightarrow>
         (case render_pages E article_tmpl articles of Inl e \<Rightarrow> Inl e | Inr pages \<Rightarrow>
         (case get_template E ''archive.html'' of Inl e \<Rightarrow> Inl e | Inr archive_tmpl \<Rightarrow>
         (case render E archive_tmpl
                 (ArchiveCtx (group_by (month_key E) articles) (length articles)) of
            Inl e \<Rightarrow> Inl e | Inr archive_html \<Rightarrow>
              Inr \<lparr> index_articles = take 30 articles,
                    index_categories = categories,
                    files_written =
                      [(''index.html'', index_html)] @ pages
                      @ [(''archive.html'', archive_html),
                         (''sitemap.xml'', sitemap_xml (sitemap_entries articles)),
                         (''robots.txt'', robots)] \<rparr>)))))))"

section \<open>A sample run\<close>

text \<open>
  An environment for the closed instances below. Each library function is given by its
  values on the inputs the instances use: \<open>html.unescape\<close> leaves a text without \<open>&\<close> as
  it is, the MD5 digests are those of the two URLs, the parser knows two date strings, the
  clock stands at 2024-01-03 00:00:00 UTC and advances by a microsecond per call, no API
  key is configured, and every template renders to the same text.
\<close>

definition sample_entry :: entry where
  "sample_entry =
     [''title'' \<mapsto> ''GPT-5 Launches'', ''link'' \<mapsto> ''https://x.com/1'',
      ''published'' \<mapsto> ''2024-01-02T00:00:00Z'',
      ''summary'' \<mapsto> ''<p>A new model is out.</p>'']"

definition seen_entry :: entry where
  "seen_entry = [''title'' \<mapsto> ''Seen before'', ''link'' \<mapsto> ''https://x.com/2'']"

definition sample_env :: env where
  "sample_env =
     \<lparr> unescape = (\<lambda>s. s),
       md5_hexdigest =
         (\<lambda>u. if u = ''https://x.com/1'' then ''a5a1a0c4812e54f7e4bb77a366fd1cc4''
              else ''cbaa3648df7bf5a5f30ad523a651a12d''),
       dateparser_parse =
         (\<lambda>s. if s = ''2024-01-02T00:00:00Z''
              then Inr \<lparr>wallclock = 63839750400000000, tzinfo = Some 0\<rparr>
              else if s = ''2023-12-01 00:00:00''
              then Inr \<lparr>wallclock = 63836985600000000, tzinfo = None\<rparr>
              else Inl (Exception (''Unknown string format: '' @ s))),
       strftime =
         (\<lambda>f d. if f = ''%Y-%m-%d''
                then (if wallclock d < 63839836800000000 then ''2024-01-02'' else ''2024-01-03'')
                else if f = ''%B %Y'' then ''January 2024''
                else (if wallclock d < 63839836800000000 then ''2024-01-02T00:00:00Z''
                      else ''2024-01-03T00:00:00Z'')),
       utcnow = (\<lambda>i. \<lparr>wallclock = 63839836800000000 + int i, tzinfo = Some 0\<rparr>),
       feedparser_parse =
         (\<lambda>i u. if u = ''https://x.com/feed''
                then Inr \<lparr>bozo = False, bozo_exception = [], entries = [sample_entry]\<rparr>
                else if u = ''https://x.com/seen''
                then Inr \<lparr>bozo = False, bozo_exception = [], entries = [seen_entry]\<rparr>
                else Inl (Exception ''connection refused'')),
       ANTHROPIC_API_KEY = None,
       HAS_ANTHROPIC = True,
       messages_create = (\<lambda>i p. Inl (Exception ''overloaded'')),
       fromisoformat =
         (\<lambda>s. if s = ''2024-01-02T00:00:00+00:00''
              then Inr \<lparr>wallclock = 63839750400000000, tzinfo = Some 0\<rparr>
              else Inl (Exception (''Invalid isoformat string: '' @ s))),
       get_template = (\<lambda>name. Inr name),
       render = (\<lambda>tmpl c. Inr (''<html>'' @ tmpl @ ''</html>'')) \<rparr>"

text \<open>The cutoff of \<open>main\<close> for that clock, seven days before, and a state to start from.\<close>

definition sample_cutoff :: datetime where
  "sample_cutoff = \<lparr>wallclock = 63839232000000000, tzinfo = Some 0\<rparr>"

definition sample_state :: run_state where
  "sample_state = \<lparr>existing_urls = {''https://x.com/2''}, calls = 0, stderr = []\<rparr>"

definition sample_feed :: "string \<rightharpoonup> string" where
  "sample_feed = [''name'' \<mapsto> ''X News'', ''url'' \<mapsto> ''https://x.com/feed'']"

definition seen_feed :: "string \<rightharpoonup> string" where
  "seen_feed = [''name'' \<mapsto> ''X Again'', ''url'' \<mapsto> ''https://x.com/seen'']"

definition down_feed :: "string \<rightharpoonup> string" where
  "down_feed = [''name'' \<mapsto> ''Down'', ''url'' \<mapsto> ''https://down.example/rss'']"




text \<open>
  A store of five files: one that does not load, and four Articles, of which two have
  no date and one of these no slug.
\<close>

definition stored_new :: stored where
  "stored_new =
     [''title'' \<mapsto> ''Seen before'', ''date'' \<mapsto> ''2024-01-03T00:00:00Z'',
      ''slug'' \<mapsto> ''2024-01-03-seen-before-cbaa3648df7b'', ''category'' \<mapsto> ''general'']"

definition stored_old :: stored where
  "stored_old =
     [''title'' \<mapsto> ''GPT-5 Launches'', ''date'' \<mapsto> ''2024-01-02T00:00:00Z'',
      ''slug'' \<mapsto> ''2024-01-02-gpt-5-launches-a5a1a0c4812e'', ''category'' \<mapsto> ''general'']"

definition stored_bare :: stored where
  "stored_bare = [''title'' \<mapsto> ''By hand'']"

definition stored_plain :: stored where
  "stored_plain = [''title'' \<mapsto> ''Also by hand'', ''slug'' \<mapsto> ''also-by-hand'']"

definition sample_files :: "(string \<times> (exn + (stored \<times> string))) list" where
  "sample_files =
     [(''by-hand.md'', Inr (stored_bare, ''Written by hand.'')),
      (''also-by-hand.md'', Inr (stored_plain, ''Written by hand, too.'')),
      (''2024-01-02-gpt-5-launches-a5a1a0c4812e.md'', Inr (stored_old, ''A new model is out.'')),
      (''broken.md'', Inl (Exception ''mapping values are not allowed here'')),
      (''2024-01-03-seen-before-cbaa3648df7b.md'', Inr (stored_new, []))]"

definition sample_loaded :: "stored list" where
  "sample_loaded =
     [stored_new(''body'' \<mapsto> []), stored_old(''body'' \<mapsto> ''A new model is out.''),
      stored_bare(''body'' \<mapsto> ''Written by hand.''),
      stored_plain(''body'' \<mapsto> ''Written by hand, too.'')]"

definition sample_article :: article where
  "sample_article =
     \<lparr> title = ''GPT-5 Launches'', url = ''https://x.com/1'', source = ''X News'',
       category = ''general'', date = ''2024-01-02T00:00:00Z'',
       summary = ''A new model is out.'',
       slug = ''2024-01-02-gpt-5-launches-a5a1a0c4812e'' \<rparr>"

section \<open>Properties of the fetcher\<close>

subsection \<open>The loop over the entries returns\<close>

lemma summarize_returns:
  "\<exists>r logged. summarize_with_claude E i t d s = Inr (r, logged)"
  by (simp add: summarize_with_claude_def split: sum.split)

lemma process_entry_returns:
  "\<exists>r logged. process_entry E i name cat cutoff X entry = Inr (r, logged)"
proof -
  obtain r logged where
    "summarize_with_claude E i (strip_html E (get entry ''title'' ''Untitled''))
       (truncate_description E (entry_description entry) 300) name = Inr (r, logged)"
    using summarize_returns by blast
  then show ?thesis
    by (simp add: process_entry_def Let_def split: option.split)
qed

lemma process_entry_skip:
  "get entry ''link'' [] = [] \<or> get entry ''link'' [] \<in> X \<Longrightarrow>
   process_entry E i name cat cutoff X entry = Inr (None, [])"
  by (auto simp add: process_entry_def Let_def)

lemma process_entry_Some:
  assumes "process_entry E i name cat cutoff X entry = Inr (Some a, logged)"
  shows "url a = get entry ''link'' [] \<and> url a \<noteq> [] \<and> url a \<notin> X
         \<and> title a = strip_html E (get entry ''title'' ''Untitled'')
         \<and> source a = name \<and> category a = cat
         \<and> (\<exists>d. resolve_pub_date E i cutoff entry = Some d
                \<and> date a = strftime E ''%Y-%m-%dT%H:%M:%SZ'' d
                \<and> slug a = make_slug E (title a) d (url a))"
  using assms
  by (auto simp add: process_entry_def Let_def
           split: if_splits option.splits sum.splits prod.splits)

lemma fetch_entries_inv:
  "\<exists>arts st'. fetch_entries E name cat cutoff es st = Inr (arts, st')
      \<and> distinct (map url arts)
      \<and> set (map url arts) \<inter> existing_urls st = {}
      \<and> [] \<notin> set (map url arts)
      \<and> existing_urls st' = existing_urls st \<union> set (map url arts)
      \<and> calls st' = calls st + length es"
proof (induction es arbitrary: st)
  case Nil
  show ?case by simp
next
  case (Cons entry rest)
  obtain r logged where p:
    "process_entry E (calls st) name cat cutoff (existing_urls st) entry = Inr (r, logged)"
    using process_entry_returns by blast
  show ?case
  proof (cases r)
    case None
    let ?st = "st\<lparr>calls := Suc (calls st), stderr := stderr st @ logged\<rparr>"
    from Cons.IH [of ?st] obtain arts st' where
      "fetch_entries E name cat cutoff rest ?st = Inr (arts, st')"
      "distinct (map url arts)" "set (map url arts) \<inter> existing_urls ?st = {}"
      "[] \<notin> set (map url arts)"
      "existing_urls st' = existing_urls ?st \<union> set (map url arts)"
      "calls st' = calls ?st + length rest"
      by blast
    with p None show ?thesis by simp
  next
    case (Some a)
    let ?st = "st\<lparr>existing_urls := insert (url a) (existing_urls st),
                  calls := Suc (calls st), stderr := stderr st @ logged\<rparr>"
    from p Some have a: "url a \<noteq> []" "url a \<notin> existing_urls st"
      using process_entry_Some by blast+
    from Cons.IH [of ?st] obtain arts st' where r:
      "fetch_entries E name cat cutoff rest ?st = Inr (arts, st')"
      "distinct (map url arts)" "set (map url arts) \<inter> existing_urls ?st = {}"
      "[] \<notin> set (map url arts)"
      "existing_urls st' = existing_urls ?st \<union> set (map url arts)"
      "calls st' = calls ?st + length rest"
      by blast
    have "fetch_entries E name cat cutoff (entry # rest) st = Inr (a # arts, st')"
      using p Some r(1) by simp
    moreover have "distinct (map url (a # arts))" using r(2,3) by auto
    moreover have "set (map url (a # arts)) \<inter> existing_urls st = {}" using r(3) a by auto
    moreover have "[] \<notin> set (map url (a # arts))" using r(4) a by auto
    moreover have "existing_urls st' = existing_urls st \<union> set (map url (a # arts))"
      using r(5) by auto
    moreover have "calls st' = calls st + length (entry # rest)" using r(6) by simp
    ultimately show ?thesis by blast
  qed
qed

lemma fetch_feed_seen_only:
  assumes "feed_config ''name'' = Some name" and "feed_config ''url'' = Some u"
    and "feedparser_parse E (calls st) u = Inr p" and "entries p = [entry]"
    and "get entry ''link'' [] \<in> existing_urls st"
  shows "fetch_feed E feed_config st cutoff = Inr ([], st\<lparr>calls := calls st + 2\<rparr>)"
proof -
  have "process_entry E (Suc (calls st)) name (get feed_config ''category'' ''general'') cutoff
          (existing_urls st) entry = Inr (None, [])"
    using assms(5) by (simp add: process_entry_skip)
  then show ?thesis
    using assms(1-4) by (simp add: fetch_feed_def Let_def)
qed

subsection \<open>Deduplication\<close>

text \<open>
  C1. An entry whose link is empty or already in \<open>existing_urls\<close> produces no Article.
  The loop over the entries of a feed returns; the URLs of the Articles it returns are
  pairwise different, non-empty and not among the URLs it started from, and it leaves
  \<open>existing_urls\<close> enlarged by exactly those URLs. When the body of the loop produces an
  Article, its URL is the link of the entry and the remaining entries are processed with
  that link already added. A feed whose only entry has a link in \<open>existing_urls\<close> yields
  no Article.
\<close>

theorem fetch_feed_dedupe:
  "(get entry ''link'' [] = [] \<or> get entry ''link'' [] \<in> X \<longrightarrow>
      process_entry E i name cat cutoff X entry = Inr (None, []))
   \<and> (\<exists>arts st'. fetch_entries E name cat cutoff es st = Inr (arts, st')
         \<and> distinct (map url arts)
         \<and> set (map url arts) \<inter> existing_urls st = {}
         \<and> [] \<notin> set (map url arts)
         \<and> existing_urls st' = existing_urls st \<union> set (map url arts))
   \<and> (process_entry E (calls st) name cat cutoff (existing_urls st) entry
         = Inr (Some a, logged) \<longrightarrow>
       url a = get entry ''link'' []
       \<and> fetch_entries E name cat cutoff (entry # es) st =
           (case fetch_entries E name cat cutoff es
                   (st\<lparr>existing_urls := insert (get entry ''link'' []) (existing_urls st),
                       calls := Suc (calls st), stderr := stderr st @ logged\<rparr>) of
              Inl e \<Rightarrow> Inl e
            | Inr (arts, st') \<Rightarrow> Inr (a # arts, st')))
   \<and> (feed_config ''name'' = Some name \<and> feed_config ''url'' = Some u
       \<and> feedparser_parse E (calls st) u = Inr p \<and> entries p = [entry]
       \<and> get entry ''link'' [] \<in> existing_urls st \<longrightarrow>
       fetch_feed E feed_config st cutoff = Inr ([], st\<lparr>calls := calls st + 2\<rparr>))"
proof (intro conjI impI)
  assume "get entry ''link'' [] = [] \<or> get entry ''link'' [] \<in> X"
  then show "process_entry E i name cat cutoff X entry = Inr (None, [])"
    by (rule process_entry_skip)
next
  show "\<exists>arts st'. fetch_entries E name cat cutoff es st = Inr (arts, st')
         \<and> distinct (map url arts)
         \<and> set (map url arts) \<inter> existing_urls st = {}
         \<and> [] \<notin> set (map url arts)
         \<and> existing_urls st' = existing_urls st \<union> set (map url arts)"
    using fetch_entries_inv [of E name cat cutoff es st] by blast
next
  assume p: "process_entry E (calls st) name cat cutoff (existing_urls st) entry
               = Inr (Some a, logged)"
  then show u: "url a = get entry ''link'' []"
    using process_entry_Some by blast
  show "fetch_entries E name cat cutoff (entry # es) st =
           (case fetch_entries E name cat cutoff es
                   (st\<lparr>existing_urls := insert (get entry ''link'' []) (existing_urls st),
                       calls := Suc (calls st), stderr := stderr st @ logged\<rparr>) of
              Inl e \<Rightarrow> Inl e
            | Inr (arts, st') \<Rightarrow> Inr (a # arts, st'))"
    using p u by simp
next
  assume "feed_config ''name'' = Some name \<and> feed_config ''url'' = Some u
       \<and> feedparser_parse E (calls st) u = Inr p \<and> entries p = [entry]
       \<and> get entry ''link'' [] \<in> existing_urls st"
  then show "fetch_feed E feed_config st cutoff = Inr ([], st\<lparr>calls := calls st + 2\<rparr>)"
    using fetch_feed_seen_only by blast
qed

theorem fetch_feed_dedupe_witness:
  "get seen_entry ''link'' [] \<in> existing_urls sample_state
   \<and> process_entry sample_env 1 ''X Again'' ''general'' sample_cutoff
        (existing_urls sample_state) seen_entry = Inr (None, [])
   \<and> process_entry sample_env (calls sample_state) ''X News'' ''general'' sample_cutoff
        (existing_urls sample_state) sample_entry = Inr (Some sample_article, [])
   \<and> url sample_article = get sample_entry ''link'' []
   \<and> fetch_entries sample_env ''X News'' ''general'' sample_cutoff
        [sample_entry, sample_entry] sample_state
      = Inr ([sample_article],
             \<lparr>existing_urls = {''https://x.com/1'', ''https://x.com/2''}, calls = 2,
              stderr = []\<rparr>)
   \<and> seen_feed ''name'' = Some ''X Again'' \<and> seen_feed ''url'' = Some ''https://x.com/seen''
   \<and> feedparser_parse sample_env (calls sample_state) ''https://x.com/seen''
      = Inr \<lparr>bozo = False, bozo_exception = [], entries = [seen_entry]\<rparr>
   \<and> fetch_feed sample_env seen_feed sample_state sample_cutoff
      = Inr ([], sample_state\<lparr>calls := calls sample_state + 2\<rparr>)"
proof -
  have h1: "get seen_entry ''link'' [] \<in> existing_urls sample_state"
    by code_simp
  have h2: "process_entry sample_env (calls sample_state) ''X News'' ''general'' sample_cutoff
        (existing_urls sample_state) sample_entry = Inr (Some sample_article, [])"
    by code_simp
  have h3: "seen_feed ''name'' = Some ''X Again'' \<and> seen_feed ''url'' = Some ''https://x.com/seen''"
    by (simp add: seen_feed_def)
  have h4: "feedparser_parse sample_env (calls sample_state) ''https://x.com/seen''
      = Inr \<lparr>bozo = False, bozo_exception = [], entries = [seen_entry]\<rparr>"
    by (simp add: sample_env_def)
  have h5: "entries \<lparr>bozo = False, bozo_exception = [], entries = [seen_entry]\<rparr> = [seen_entry]"
    by simp
  have r: "fetch_entries sample_env ''X News'' ''general'' sample_cutoff
        [sample_entry] (sample_state\<lparr>existing_urls :=
             insert (get sample_entry ''link'' []) (existing_urls sample_state),
           calls := Suc (calls sample_state), stderr := stderr sample_state @ []\<rparr>)
      = Inr ([], \<lparr>existing_urls = {''https://x.com/1'', ''https://x.com/2''}, calls = 2,
              stderr = []\<rparr>)"
    by code_simp
  note A = fetch_feed_dedupe [where E = sample_env and entry = seen_entry
      and X = "existing_urls sample_state" and i = 1 and name = "''X Again''"
      and cat = "''general''" and cutoff = sample_cutoff and st = sample_state
      and feed_config = seen_feed and u = "''https://x.com/seen''"
      and p = "\<lparr>bozo = False, bozo_exception = [], entries = [seen_entry]\<rparr>"]
  note B = fetch_feed_dedupe [where E = sample_env and entry = sample_entry
      and name = "''X News''" and cat = "''general''" and cutoff = sample_cutoff
      and st = sample_state and es = "[sample_entry]" and a = sample_article
      and logged = "[]"]
  from A h1 have c1: "process_entry sample_env 1 ''X Again'' ''general'' sample_cutoff
        (existing_urls sample_state) seen_entry = Inr (None, [])"
    by blast
  from A h1 h3 h4 h5 have c4: "fetch_feed sample_env seen_feed sample_state sample_cutoff
      = Inr ([], sample_state\<lparr>calls := calls sample_state + 2\<rparr>)"
    by blast
  from B h2 have c3: "url sample_article = get sample_entry ''link'' []"
    and c3': "fetch_entries sample_env ''X News'' ''general'' sample_cutoff
        [sample_entry, sample_entry] sample_state =
           (case fetch_entries sample_env ''X News'' ''general'' sample_cutoff [sample_entry]
                   (sample_state\<lparr>existing_urls :=
                        insert (get sample_entry ''link'' []) (existing_urls sample_state),
                       calls := Suc (calls sample_state),
                       stderr := stderr sample_state @ []\<rparr>) of
              Inl e \<Rightarrow> Inl e
            | Inr (arts, st') \<Rightarrow> Inr (sample_article # arts, st'))"
    by blast+
  from c3' r have c3'': "fetch_entries sample_env ''X News'' ''general'' sample_cutoff
        [sample_entry, sample_entry] sample_state
      = Inr ([sample_article],
             \<lparr>existing_urls = {''https://x.com/1'', ''https://x.com/2''}, calls = 2,
              stderr = []\<rparr>)"
    by simp
  from h1 c1 h2 c3 c3'' h3 h4 c4 show ?thesis by blast
qed

subsection \<open>The slug of an Article\<close>

lemma fetch_entries_produced:
  "fetch_entries E name cat cutoff es st = Inr (arts, st') \<Longrightarrow> a \<in> set arts \<Longrightarrow>
   \<exists>entry i X logged. process_entry E i name cat cutoff X entry = Inr (Some a, logged)"
proof (induction es arbitrary: st arts)
  case Nil
  then show ?case by simp
next
  case (Cons entry rest)
  obtain r logged where p:
    "process_entry E (calls st) name cat cutoff (existing_urls st) entry = Inr (r, logged)"
    using process_entry_returns by blast
  show ?case
  proof (cases r)
    case None
    with p Cons.prems(1) have
      "fetch_entries E name cat cutoff rest
         (st\<lparr>calls := Suc (calls st), stderr := stderr st @ logged\<rparr>) = Inr (arts, st')"
      by simp
    from Cons.IH [OF this Cons.prems(2)] show ?thesis .
  next
    case (Some b)
    let ?st = "st\<lparr>existing_urls := insert (url b) (existing_urls st),
                  calls := Suc (calls st), stderr := stderr st @ logged\<rparr>"
    from p Some Cons.prems(1) obtain arts' where
      r: "fetch_entries E name cat cutoff rest ?st = Inr (arts', st')" and
      arts: "arts = b # arts'"
      by (auto split: sum.splits prod.splits)
    show ?thesis
    proof (cases "a = b")
      case True
      with p Some show ?thesis by blast
    next
      case False
      with arts Cons.prems(2) have "a \<in> set arts'" by simp
      from Cons.IH [OF r this] show ?thesis .
    qed
  qed
qed

lemma fetch_feed_produced:
  assumes "fetch_feed E feed_config st cutoff = Inr (arts, st')" and "a \<in> set arts"
  shows "\<exists>entry i name cat X logged.
           process_entry E i name cat cutoff X entry = Inr (Some a, logged)"
proof -
  from assms obtain name cat es st1 where
    "fetch_entries E name cat cutoff es st1 = Inr (arts, st')"
    by (auto simp add: fetch_feed_def Let_def split: option.splits sum.splits if_splits)
  from fetch_entries_produced [OF this assms(2)] show ?thesis by blast
qed

lemma fetch_all_produced:
  "fetch_all E feeds st cutoff = Inr (arts, st') \<Longrightarrow> a \<in> set arts \<Longrightarrow>
   \<exists>entry i name cat X logged.
      process_entry E i name cat cutoff X entry = Inr (Some a, logged)"
proof (induction feeds arbitrary: st arts)
  case Nil
  then show ?case by simp
next
  case (Cons feed_config feeds)
  from Cons.prems(1) obtain arts1 st1 later where
    f: "fetch_feed E feed_config st cutoff = Inr (arts1, st1)" and
    r: "fetch_all E feeds st1 cutoff = Inr (later, st')" and
    arts: "arts = arts1 @ later"
    by (auto split: sum.splits prod.splits)
  from arts Cons.prems(2) consider "a \<in> set arts1" | "a \<in> set later" by auto
  then show ?case
  proof cases
    case 1
    from fetch_feed_produced [OF f 1] show ?thesis .
  next
    case 2
    from Cons.IH [OF r 2] show ?thesis .
  qed
qed

text \<open>
  C2. Every Article a run writes has a publish date \<open>d\<close> of which its \<open>date\<close> is the
  timestamp and its \<open>slug\<close> is the day, the slugified title and the first twelve
  characters of the MD5 hex digest of the URL, joined by hyphens. The slug is the value
  of the function \<open>make_slug\<close> at the title, the date and the URL, so computing it again
  from the same three gives the same string.
\<close>

theorem article_slug_format:
  "fetch_all E feeds st cutoff = Inr (arts, st') \<Longrightarrow> a \<in> set arts \<Longrightarrow>
   \<exists>d. date a = strftime E ''%Y-%m-%dT%H:%M:%SZ'' d
       \<and> slug a = strftime E ''%Y-%m-%d'' d @ ''-'' @ slugify E (title a) @ ''-''
                   @ take 12 (md5_hexdigest E (url a))
       \<and> slug a = make_slug E (title a) d (url a)"
proof -
  assume "fetch_all E feeds st cutoff = Inr (arts, st')" and "a \<in> set arts"
  then obtain entry i name cat X logged where
    "process_entry E i name cat cutoff X entry = Inr (Some a, logged)"
    using fetch_all_produced by blast
  then obtain d where "date a = strftime E ''%Y-%m-%dT%H:%M:%SZ'' d"
    and "slug a = make_slug E (title a) d (url a)"
    using process_entry_Some by blast
  then show ?thesis
    by (auto simp add: make_slug_def article_id_def)
qed

theorem article_slug_format_witness:
  "fetch_all sample_env [down_feed, seen_feed, sample_feed] sample_state sample_cutoff
     = Inr ([sample_article],
            \<lparr>existing_urls = {''https://x.com/1'', ''https://x.com/2''}, calls = 5,
             stderr = [''  Error parsing Down: connection refused'']\<rparr>)
   \<and> sample_article \<in> set [sample_article]
   \<and> (\<exists>d. date sample_article = strftime sample_env ''%Y-%m-%dT%H:%M:%SZ'' d
          \<and> slug sample_article =
              strftime sample_env ''%Y-%m-%d'' d @ ''-''
              @ slugify sample_env (title sample_article) @ ''-''
              @ take 12 (md5_hexdigest sample_env (url sample_article))
          \<and> slug sample_article
              = make_slug sample_env (title sample_article) d (url sample_article))
   \<and> slug sample_article = ''2024-01-02-gpt-5-launches-a5a1a0c4812e''"
proof -
  have h1: "fetch_all sample_env [down_feed, seen_feed, sample_feed] sample_state sample_cutoff
     = Inr ([sample_article],
            \<lparr>existing_urls = {''https://x.com/1'', ''https://x.com/2''}, calls = 5,
             stderr = [''  Error parsing Down: connection refused'']\<rparr>)"
    by code_simp
  have h2: "sample_article \<in> set [sample_article]" by simp
  have h3: "slug sample_article = ''2024-01-02-gpt-5-launches-a5a1a0c4812e''"
    by (simp add: sample_article_def)
  from article_slug_format [OF h1 h2] h1 h2 h3 show ?thesis by blast
qed

subsection \<open>The summarizer\<close>

text \<open>
  C7. \<open>summarize_with_claude\<close> returns for every input. It returns \<open>None\<close> and prints
  nothing when no API key is configured or the \<open>anthropic\<close> package is absent; when the
  API call raises, it prints one line to \<open>stderr\<close> and returns \<open>None\<close>. Whenever it returns
  \<open>None\<close> for an entry, the Article of that entry has the truncated description as its
  summary.
\<close>

theorem summarize_never_raises:
  "(\<exists>r logged. summarize_with_claude E i ttl d src = Inr (r, logged))
   \<and> (\<not> truthy (ANTHROPIC_API_KEY E) \<or> \<not> HAS_ANTHROPIC E \<longrightarrow>
        summarize_with_claude E i ttl d src = Inr (None, []))
   \<and> (truthy (ANTHROPIC_API_KEY E) \<and> HAS_ANTHROPIC E
        \<and> messages_create E i (prompt ttl d src) = Inl e \<longrightarrow>
        summarize_with_claude E i ttl d src
          = Inr (None, [''  Claude API error: '' @ exn_str e]))
   \<and> (process_entry E i name cat cutoff X entry = Inr (Some a, logged')
        \<and> summarize_with_claude E i (strip_html E (get entry ''title'' ''Untitled''))
             (truncate_description E (entry_description entry) 300) name
            = Inr (None, logged'') \<longrightarrow>
        summary a = truncate_description E (entry_description entry) 300)"
proof (intro conjI impI)
  show "\<exists>r logged. summarize_with_claude E i ttl d src = Inr (r, logged)"
    by (simp add: summarize_with_claude_def split: sum.split)
next
  assume "\<not> truthy (ANTHROPIC_API_KEY E) \<or> \<not> HAS_ANTHROPIC E"
  then show "summarize_with_claude E i ttl d src = Inr (None, [])"
    by (auto simp add: summarize_with_claude_def)
next
  assume "truthy (ANTHROPIC_API_KEY E) \<and> HAS_ANTHROPIC E
        \<and> messages_create E i (prompt ttl d src) = Inl e"
  then show "summarize_with_claude E i ttl d src
          = Inr (None, [''  Claude API error: '' @ exn_str e])"
    by (simp add: summarize_with_claude_def)
next
  assume "process_entry E i name cat cutoff X entry = Inr (Some a, logged')
        \<and> summarize_with_claude E i (strip_html E (get entry ''title'' ''Untitled''))
             (truncate_description E (entry_description entry) 300) name
            = Inr (None, logged'')"
  then show "summary a = truncate_description E (entry_description entry) 300"
    by (auto simp add: process_entry_def Let_def truthy_def
             split: if_splits option.splits)
qed

theorem summarize_never_raises_witness:
  "\<not> truthy (ANTHROPIC_API_KEY sample_env)
   \<and> summarize_with_claude sample_env 0 ''GPT-5 Launches'' ''A new model is out.'' ''X News''
       = Inr (None, [])
   \<and> truthy (ANTHROPIC_API_KEY (sample_env\<lparr>ANTHROPIC_API_KEY := Some ''sk-test''\<rparr>))
   \<and> HAS_ANTHROPIC (sample_env\<lparr>ANTHROPIC_API_KEY := Some ''sk-test''\<rparr>)
   \<and> messages_create (sample_env\<lparr>ANTHROPIC_API_KEY := Some ''sk-test''\<rparr>) 0
        (prompt ''GPT-5 Launches'' ''A new model is out.'' ''X News'')
       = Inl (Exception ''overloaded'')
   \<and> summarize_with_claude (sample_env\<lparr>ANTHROPIC_API_KEY := Some ''sk-test''\<rparr>) 0
        ''GPT-5 Launches'' ''A new model is out.'' ''X News''
       = Inr (None, [''  Claude API error: '' @ exn_str (Exception ''overloaded'')])
   \<and> process_entry sample_env 0 ''X News'' ''general'' sample_cutoff {''https://x.com/2''}
        sample_entry = Inr (Some sample_article, [])
   \<and> summarize_with_claude sample_env 0
        (strip_html sample_env (get sample_entry ''title'' ''Untitled''))
        (truncate_description sample_env (entry_description sample_entry) 300) ''X News''
       = Inr (None, [])
   \<and> summary sample_article
       = truncate_description sample_env (entry_description sample_entry) 300"
proof -
  let ?E = "sample_env\<lparr>ANTHROPIC_API_KEY := Some ''sk-test''\<rparr>"
  have h1: "\<not> truthy (ANTHROPIC_API_KEY sample_env)"
    by (simp add: sample_env_def truthy_def)
  have h2: "truthy (ANTHROPIC_API_KEY ?E) \<and> HAS_ANTHROPIC ?E
     \<and> messages_create ?E 0 (prompt ''GPT-5 Launches'' ''A new model is out.'' ''X News'')
       = Inl (Exception ''overloaded'')"
    by (simp add: sample_env_def truthy_def)
  have h3: "process_entry sample_env 0 ''X News'' ''general'' sample_cutoff
      {''https://x.com/2''} sample_entry = Inr (Some sample_article, [])"
    by code_simp
  note A = summarize_never_raises [where E = sample_env and i = 0
      and ttl = "''GPT-5 Launches''" and d = "''A new model is out.''" and src = "''X News''"
      and name = "''X News''" and cat = "''general''" and cutoff = sample_cutoff
      and X = "{''https://x.com/2''}" and entry = sample_entry and a = sample_article
      and logged' = "[]" and logged'' = "[]"]
  note B = summarize_never_raises [where E = "?E" and i = 0
      and ttl = "''GPT-5 Launches''" and d = "''A new model is out.''" and src = "''X News''"
      and e = "Exception ''overloaded''"]
  from A h1 have c2: "summarize_with_claude sample_env 0 ''GPT-5 Launches''
      ''A new model is out.'' ''X News'' = Inr (None, [])"
    by blast
  from A h1 have h4: "summarize_with_claude sample_env 0
        (strip_html sample_env (get sample_entry ''title'' ''Untitled''))
        (truncate_description sample_env (entry_description sample_entry) 300) ''X News''
       = Inr (None, [])"
    using summarize_never_raises [where E = sample_env] by blast
  from A h3 h4 have c4: "summary sample_article
       = truncate_description sample_env (entry_description sample_entry) 300"
    by blast
  from B h2 have c3: "summarize_with_claude ?E 0
        ''GPT-5 Launches'' ''A new model is out.'' ''X News''
       = Inr (None, [''  Claude API error: '' @ exn_str (Exception ''overloaded'')])"
    by blast
  from h1 c2 h2 c3 h3 h4 c4 show ?thesis by blast
qed

subsection \<open>A feed that fails\<close>

lemma fetch_all_skip:
  "fetch_feed E feed_config st cutoff = Inr ([], st1) \<Longrightarrow>
   fetch_all E (feed_config # feeds) st cutoff = fetch_all E feeds st1 cutoff"
  by (simp split: sum.split prod.split)

text \<open>
  C8. For a feed configuration with a name and a URL: when \<open>feedparser.parse\<close> raises, or
  returns a result flagged \<open>bozo\<close> that has no entries, \<open>fetch_feed\<close> returns the empty
  list, having printed one line to \<open>stderr\<close> and left \<open>existing_urls\<close> as it was; and the
  loop of \<open>main\<close> goes on with the remaining feeds from that state.
\<close>

theorem fetch_feed_failure_isolated:
  "(feed_config ''name'' = Some name \<and> feed_config ''url'' = Some u
      \<and> feedparser_parse E (calls st) u = Inl e \<longrightarrow>
      fetch_feed E feed_config st cutoff
        = Inr ([], st\<lparr>calls := Suc (calls st),
                      stderr := stderr st @ [''  Error parsing '' @ name @ '': '' @ exn_str e]\<rparr>)
      \<and> fetch_all E (feed_config # feeds) st cutoff
        = fetch_all E feeds
            (st\<lparr>calls := Suc (calls st),
                stderr := stderr st @ [''  Error parsing '' @ name @ '': '' @ exn_str e]\<rparr>)
            cutoff)
   \<and> (feed_config ''name'' = Some name \<and> feed_config ''url'' = Some u
      \<and> feedparser_parse E (calls st) u = Inr p \<and> bozo p \<and> entries p = [] \<longrightarrow>
      fetch_feed E feed_config st cutoff
        = Inr ([], st\<lparr>calls := Suc (calls st),
                      stderr := stderr st @ [''  Warning: feed error for '' @ name @ '': ''
                                             @ bozo_exception p]\<rparr>)
      \<and> fetch_all E (feed_config # feeds) st cutoff
        = fetch_all E feeds
            (st\<lparr>calls := Suc (calls st),
                stderr := stderr st @ [''  Warning: feed error for '' @ name @ '': ''
                                       @ bozo_exception p]\<rparr>)
            cutoff)"
proof (intro conjI impI)
  assume h: "feed_config ''name'' = Some name \<and> feed_config ''url'' = Some u
      \<and> feedparser_parse E (calls st) u = Inl e"
  then show f: "fetch_feed E feed_config st cutoff
        = Inr ([], st\<lparr>calls := Suc (calls st),
                      stderr := stderr st @ [''  Error parsing '' @ name @ '': '' @ exn_str e]\<rparr>)"
    by (simp add: fetch_feed_def Let_def)
  show "fetch_all E (feed_config # feeds) st cutoff
        = fetch_all E feeds
            (st\<lparr>calls := Suc (calls st),
                stderr := stderr st @ [''  Error parsing '' @ name @ '': '' @ exn_str e]\<rparr>)
            cutoff"
    using f by (rule fetch_all_skip)
next
  assume h: "feed_config ''name'' = Some name \<and> feed_config ''url'' = Some u
      \<and> feedparser_parse E (calls st) u = Inr p \<and> bozo p \<and> entries p = []"
  then show f: "fetch_feed E feed_config st cutoff
        = Inr ([], st\<lparr>calls := Suc (calls st),
                      stderr := stderr st @ [''  Warning: feed error for '' @ name @ '': ''
                                             @ bozo_exception p]\<rparr>)"
    by (simp add: fetch_feed_def Let_def)
  show "fetch_all E (feed_config # feeds) st cutoff
        = fetch_all E feeds
            (st\<lparr>calls := Suc (calls st),
                stderr := stderr st @ [''  Warning: feed error for '' @ name @ '': ''
                                       @ bozo_exception p]\<rparr>)
            cutoff"
    using f by (rule fetch_all_skip)
qed

theorem fetch_feed_failure_isolated_witness:
  "down_feed ''name'' = Some ''Down'' \<and> down_feed ''url'' = Some ''https://down.example/rss''
   \<and> feedparser_parse sample_env (calls sample_state) ''https://down.example/rss''
       = Inl (Exception ''connection refused'')
   \<and> fetch_feed sample_env down_feed sample_state sample_cutoff
       = Inr ([], sample_state\<lparr>calls := Suc (calls sample_state),
                 stderr := stderr sample_state
                   @ [''  Error parsing '' @ ''Down'' @ '': ''
                      @ exn_str (Exception ''connection refused'')]\<rparr>)
   \<and> fetch_all sample_env [down_feed, sample_feed] sample_state sample_cutoff
       = Inr ([sample_article],
              \<lparr>existing_urls = {''https://x.com/1'', ''https://x.com/2''}, calls = 3,
               stderr = [''  Error parsing Down: connection refused'']\<rparr>)
   \<and> feedparser_parse
        (sample_env\<lparr>feedparser_parse :=
           \<lambda>i u. Inr \<lparr>bozo = True, bozo_exception = ''not well-formed'', entries = []\<rparr>\<rparr>)
        (calls sample_state) ''https://down.example/rss''
       = Inr \<lparr>bozo = True, bozo_exception = ''not well-formed'', entries = []\<rparr>
   \<and> fetch_feed
        (sample_env\<lparr>feedparser_parse :=
           \<lambda>i u. Inr \<lparr>bozo = True, bozo_exception = ''not well-formed'', entries = []\<rparr>\<rparr>)
        down_feed sample_state sample_cutoff
       = Inr ([], sample_state\<lparr>calls := Suc (calls sample_state),
                 stderr := stderr sample_state
                   @ [''  Warning: feed error for '' @ ''Down'' @ '': ''
                      @ bozo_exception
                          \<lparr>bozo = True, bozo_exception = ''not well-formed'',
                           entries = []\<rparr>]\<rparr>)"
proof -
  let ?p = "\<lparr>bozo = True, bozo_exception = ''not well-formed'', entries = []\<rparr>"
  let ?E = "sample_env\<lparr>feedparser_parse := \<lambda>i u. Inr ?p\<rparr>"
  have h1: "down_feed ''name'' = Some ''Down''
      \<and> down_feed ''url'' = Some ''https://down.example/rss''"
    by (simp add: down_feed_def)
  have h2: "feedparser_parse sample_env (calls sample_state) ''https://down.example/rss''
       = Inl (Exception ''connection refused'')"
    by (simp add: sample_env_def)
  have h3: "feedparser_parse ?E (calls sample_state) ''https://down.example/rss'' = Inr ?p"
    by simp
  have h4: "bozo ?p \<and> entries ?p = []" by simp
  have r: "fetch_all sample_env [sample_feed]
       (sample_state\<lparr>calls := Suc (calls sample_state),
                 stderr := stderr sample_state
                   @ [''  Error parsing '' @ ''Down'' @ '': ''
                      @ exn_str (Exception ''connection refused'')]\<rparr>) sample_cutoff
       = Inr ([sample_article],
              \<lparr>existing_urls = {''https://x.com/1'', ''https://x.com/2''}, calls = 3,
               stderr = [''  Error parsing Down: connection refused'']\<rparr>)"
    by code_simp
  note A = fetch_feed_failure_isolated [where E = sample_env and feed_config = down_feed
      and name = "''Down''" and u = "''https://down.example/rss''" and st = sample_state
      and e = "Exception ''connection refused''" and cutoff = sample_cutoff
      and feeds = "[sample_feed]"]
  note B = fetch_feed_failure_isolated [where E = "?E" and feed_config = down_feed
      and name = "''Down''" and u = "''https://down.example/rss''" and st = sample_state
      and p = "?p" and cutoff = sample_cutoff]
  from A h1 h2 have c1: "fetch_feed sample_env down_feed sample_state sample_cutoff
       = Inr ([], sample_state\<lparr>calls := Suc (calls sample_state),
                 stderr := stderr sample_state
                   @ [''  Error parsing '' @ ''Down'' @ '': ''
                      @ exn_str (Exception ''connection refused'')]\<rparr>)"
    and c1': "fetch_all sample_env [down_feed, sample_feed] sample_state sample_cutoff
       = fetch_all sample_env [sample_feed]
       (sample_state\<lparr>calls := Suc (calls sample_state),
                 stderr := stderr sample_state
                   @ [''  Error parsing '' @ ''Down'' @ '': ''
                      @ exn_str (Exception ''connection refused'')]\<rparr>) sample_cutoff"
    by blast+
  from B h1 h3 h4 have c2: "fetch_feed ?E down_feed sample_state sample_cutoff
       = Inr ([], sample_state\<lparr>calls := Suc (calls sample_state),
                 stderr := stderr sample_state
                   @ [''  Warning: feed error for '' @ ''Down'' @ '': ''
                      @ bozo_exception ?p]\<rparr>)"
    by blast
  from c1' r have c1'': "fetch_all sample_env [down_feed, sample_feed] sample_state sample_cutoff
       = Inr ([sample_article],
              \<lparr>existing_urls = {''https://x.com/1'', ''https://x.com/2''}, calls = 3,
               stderr = [''  Error parsing Down: connection refused'']\<rparr>)"
    by simp
  from h1 h2 c1 c1'' h3 c2 show ?thesis by blast
qed

subsection \<open>The publish date and the cutoff\<close>






section \<open>Properties of the string functions\<close>

subsection \<open>truncate\_description\<close>

lemma rsplit_head_take:
  assumes "sep \<in> set u"
  shows "\<exists>k<length u. rsplit_head sep u = take k u \<and> u ! k = sep
           \<and> sep \<notin> set (drop (Suc k) u)"
proof -
  from assms obtain a b where u: "u = a @ sep # b" and nb: "sep \<notin> set b"
    by (auto dest: split_list_last)
  have "dropWhile (\<lambda>x. x \<noteq> sep) (rev u) = sep # rev a"
    using nb by (auto simp add: u dropWhile_append3)
  then have "rsplit_head sep u = a"
    using assms by (simp add: rsplit_head_def)
  then have "rsplit_head sep u = take (length a) u \<and> u ! length a = sep
      \<and> sep \<notin> set (drop (Suc (length a)) u) \<and> length a < length u"
    using nb by (simp add: u)
  then show ?thesis by blast
qed

lemma rsplit_head_none: "sep \<notin> set u \<Longrightarrow> rsplit_head sep u = u"
  by (simp add: rsplit_head_def)

lemma truncate_long:
  assumes "m < length (strip_html E t)"
  shows "\<exists>k\<le>m. truncate_description E t (int m) = take k (strip_html E t) @ ''...''
           \<and> (if CHR '' '' \<in> set (take m (strip_html E t))
               then k < m \<and> strip_html E t ! k = CHR '' ''
                    \<and> CHR '' '' \<notin> set (drop (Suc k) (take m (strip_html E t)))
               else k = m)"
proof -
  let ?s = "strip_html E t"
  have r: "truncate_description E t (int m) = rsplit_head (CHR '' '') (take m ?s) @ ''...''"
    using assms by (simp add: truncate_description_def slice_to_def Let_def)
  show ?thesis
  proof (cases "CHR '' '' \<in> set (take m ?s)")
    case True
    then obtain k where k: "k < length (take m ?s)"
      and h: "rsplit_head (CHR '' '') (take m ?s) = take k (take m ?s)"
      and sp: "take m ?s ! k = CHR '' ''"
      and lst: "CHR '' '' \<notin> set (drop (Suc k) (take m ?s))"
      using rsplit_head_take by blast
    from k have km: "k < m" by simp
    then have "take k (take m ?s) = take k ?s" by (simp add: min_def)
    moreover from km sp have at: "?s ! k = CHR '' ''" by simp
    ultimately have "truncate_description E t (int m) = take k ?s @ ''...''"
      using r h by simp
    with True km at lst show ?thesis
      by (intro exI [of _ k]) simp
  next
    case False
    then have "rsplit_head (CHR '' '') (take m ?s) = take m ?s"
      by (rule rsplit_head_none)
    then show ?thesis using False r by auto
  qed
qed

text \<open>
  C3, as amended. For a limit \<open>m\<close>, here 10 or 300, the result has at most \<open>m + 3\<close>
  characters. A stripped text of at most \<open>m\<close> characters is returned as it is. A longer
  one is cut to its first \<open>k\<close> characters, \<open>k\<close> at most \<open>m\<close>, and the ellipsis is appended.
  When the first \<open>m\<close> characters hold a space, the cut is at the last of these spaces:
  \<open>k\<close> is below \<open>m\<close>, the character at \<open>k\<close> is a space and no space stands between it
  and the \<open>m\<close>-th character; so the cut does not fall inside a word. When the first \<open>m\<close>
  characters hold no space, the cut is after the \<open>m\<close>-th character whatever follows it.
\<close>

theorem truncate_description_cut:
  "length (truncate_description E t (int m)) \<le> m + 3
   \<and> (length (strip_html E t) \<le> m \<longrightarrow> truncate_description E t (int m) = strip_html E t)
   \<and> (m < length (strip_html E t) \<longrightarrow>
        (let k = length (truncate_description E t (int m)) - 3
         in truncate_description E t (int m) = take k (strip_html E t) @ ''...''
            \<and> k \<le> m
            \<and> (if CHR '' '' \<in> set (take m (strip_html E t))
                then k < m \<and> strip_html E t ! k = CHR '' ''
                     \<and> CHR '' '' \<notin> set (drop (Suc k) (take m (strip_html E t)))
                     \<and> \<not> splits_word (strip_html E t) k
                else k = m)))"
proof (cases "m < length (strip_html E t)")
  case False
  then have "truncate_description E t (int m) = strip_html E t"
    by (simp add: truncate_description_def Let_def)
  with False show ?thesis by simp
next
  case True
  then obtain k where km: "k \<le> m"
    and r: "truncate_description E t (int m) = take k (strip_html E t) @ ''...''"
    and c: "if CHR '' '' \<in> set (take m (strip_html E t))
            then k < m \<and> strip_html E t ! k = CHR '' ''
                 \<and> CHR '' '' \<notin> set (drop (Suc k) (take m (strip_html E t)))
            else k = m"
    using truncate_long by blast
  from km True have len: "length (truncate_description E t (int m)) = k + 3"
    by (simp add: r)
  then have k: "length (truncate_description E t (int m)) - 3 = k" by simp
  have "\<not> splits_word (strip_html E t) k" if "strip_html E t ! k = CHR '' ''"
    using that by (simp add: splits_word_def)
  with c have c': "if CHR '' '' \<in> set (take m (strip_html E t))
      then k < m \<and> strip_html E t ! k = CHR '' ''
           \<and> CHR '' '' \<notin> set (drop (Suc k) (take m (strip_html E t)))
           \<and> \<not> splits_word (strip_html E t) k
      else k = m"
    by (simp split: if_splits)
  show ?thesis
    unfolding Let_def k using True km r c' len by simp
qed

theorem truncate_description_cut_witness:
  "length (strip_html sample_env ''short'') \<le> 10
   \<and> truncate_description sample_env ''short'' (int 10) = strip_html sample_env ''short''
   \<and> 10 < length (strip_html sample_env ''<b>word1</b> word2   word3'')
   \<and> (let k = length (truncate_description sample_env ''<b>word1</b> word2   word3'' (int 10)) - 3
      in truncate_description sample_env ''<b>word1</b> word2   word3'' (int 10)
           = take k (strip_html sample_env ''<b>word1</b> word2   word3'') @ ''...''
         \<and> k \<le> 10
         \<and> (if CHR '' '' \<in> set (take 10 (strip_html sample_env ''<b>word1</b> word2   word3''))
             then k < 10
                  \<and> strip_html sample_env ''<b>word1</b> word2   word3'' ! k = CHR '' ''
                  \<and> CHR '' '' \<notin> set (drop (Suc k)
                        (take 10 (strip_html sample_env ''<b>word1</b> word2   word3'')))
                  \<and> \<not> splits_word (strip_html sample_env ''<b>word1</b> word2   word3'') k
             else k = 10))
   \<and> truncate_description sample_env ''<b>word1</b> word2   word3'' 10 = ''word1...''
   \<and> 10 < length (strip_html sample_env ''a bcdefgh ijk lmn'')
   \<and> (let k = length (truncate_description sample_env ''a bcdefgh ijk lmn'' (int 10)) - 3
      in truncate_description sample_env ''a bcdefgh ijk lmn'' (int 10)
           = take k (strip_html sample_env ''a bcdefgh ijk lmn'') @ ''...''
         \<and> k \<le> 10
         \<and> (if CHR '' '' \<in> set (take 10 (strip_html sample_env ''a bcdefgh ijk lmn''))
             then k < 10
                  \<and> strip_html sample_env ''a bcdefgh ijk lmn'' ! k = CHR '' ''
                  \<and> CHR '' '' \<notin> set (drop (Suc k)
                        (take 10 (strip_html sample_env ''a bcdefgh ijk lmn'')))
                  \<and> \<not> splits_word (strip_html sample_env ''a bcdefgh ijk lmn'') k
             else k = 10))
   \<and> truncate_description sample_env ''a bcdefgh ijk lmn'' 10 = ''a bcdefgh...''
   \<and> 300 < length (strip_html sample_env (concat (replicate 61 ''word '')))
   \<and> length (truncate_description sample_env (concat (replicate 61 ''word '')) (int 300))
       \<le> 300 + 3
   \<and> truncate_description sample_env (concat (replicate 61 ''word '')) 300
       = take 299 (strip_html sample_env (concat (replicate 61 ''word ''))) @ ''...''"
proof -
  have h1: "length (strip_html sample_env ''short'') \<le> 10" by code_simp
  have h2: "10 < length (strip_html sample_env ''<b>word1</b> word2   word3'')" by code_simp
  have h3: "truncate_description sample_env ''<b>word1</b> word2   word3'' 10 = ''word1...''"
    by code_simp
  have h4: "300 < length (strip_html sample_env (concat (replicate 61 ''word '')))"
    by code_simp
  have h5: "truncate_description sample_env (concat (replicate 61 ''word '')) 300
       = take 299 (strip_html sample_env (concat (replicate 61 ''word ''))) @ ''...''"
    by code_simp
  have h6: "10 < length (strip_html sample_env ''a bcdefgh ijk lmn'')" by code_simp
  have h7: "truncate_description sample_env ''a bcdefgh ijk lmn'' 10 = ''a bcdefgh...''"
    by code_simp
  note A = truncate_description_cut [where E = sample_env and t = "''short''" and m = 10]
  note B = truncate_description_cut [where E = sample_env
      and t = "''<b>word1</b> word2   word3''" and m = 10]
  note C = truncate_description_cut [where E = sample_env
      and t = "concat (replicate 61 ''word '')" and m = 300]
  note D = truncate_description_cut [where E = sample_env
      and t = "''a bcdefgh ijk lmn''" and m = 10]
  from A h1 have c1: "truncate_description sample_env ''short'' (int 10)
      = strip_html sample_env ''short''"
    by blast
  from B h2 have c2: "let k = length (truncate_description sample_env ''<b>word1</b> word2   word3'' (int 10)) - 3
      in truncate_description sample_env ''<b>word1</b> word2   word3'' (int 10)
           = take k (strip_html sample_env ''<b>word1</b> word2   word3'') @ ''...''
         \<and> k \<le> 10
         \<and> (if CHR '' '' \<in> set (take 10 (strip_html sample_env ''<b>word1</b> word2   word3''))
             then k < 10
                  \<and> strip_html sample_env ''<b>word1</b> word2   word3'' ! k = CHR '' ''
                  \<and> CHR '' '' \<notin> set (drop (Suc k)
                        (take 10 (strip_html sample_env ''<b>word1</b> word2   word3'')))
                  \<and> \<not> splits_word (strip_html sample_env ''<b>word1</b> word2   word3'') k
             else k = 10)"
    by blast
  from D h6 have c4: "let k = length (truncate_description sample_env ''a bcdefgh ijk lmn'' (int 10)) - 3
      in truncate_description sample_env ''a bcdefgh ijk lmn'' (int 10)
           = take k (strip_html sample_env ''a bcdefgh ijk lmn'') @ ''...''
         \<and> k \<le> 10
         \<and> (if CHR '' '' \<in> set (take 10 (strip_html sample_env ''a bcdefgh ijk lmn''))
             then k < 10
                  \<and> strip_html sample_env ''a bcdefgh ijk lmn'' ! k = CHR '' ''
                  \<and> CHR '' '' \<notin> set (drop (Suc k)
                        (take 10 (strip_html sample_env ''a bcdefgh ijk lmn'')))
                  \<and> \<not> splits_word (strip_html sample_env ''a bcdefgh ijk lmn'') k
             else k = 10)"
    by blast
  from C have c3: "length (truncate_description sample_env (concat (replicate 61 ''word ''))
      (int 300)) \<le> 300 + 3"
    by blast
  from h1 c1 h2 c2 h3 h6 c4 h7 h4 c3 h5 show ?thesis by blast
qed

text \<open>
  C3 as stated fails for a text whose first ten characters hold no space: the cut falls
  between the tenth and the eleventh character of one word.
\<close>

theorem truncate_description_counterexample:
  "strip_html sample_env ''abcdefghijk'' = ''abcdefghijk''
   \<and> truncate_description sample_env ''abcdefghijk'' 10 = ''abcdefghij...''
   \<and> splits_word (strip_html sample_env ''abcdefghijk'') 10"
proof -
  have "strip_html sample_env ''abcdefghijk'' = ''abcdefghijk''" by code_simp
  moreover have "truncate_description sample_env ''abcdefghijk'' 10 = ''abcdefghij...''"
    by code_simp
  moreover have "splits_word (strip_html sample_env ''abcdefghijk'') 10" by code_simp
  ultimately show ?thesis by simp
qed

subsection \<open>slugify\<close>

text \<open>
  What holds of every slug: its length, its characters, the hyphens inside it and the
  hyphen at its front. The hyphen at its end is excluded for a slug shorter than 80
  characters only.
\<close>

lemma lower_char_idem: "lower_char (lower_char c) = lower_char c"
proof -
  have "of_char c < (256 :: nat)" by simp
  then show ?thesis
    by (auto simp add: lower_char_def Let_def)
qed

lemma sub_runs_set: "c \<in> set (sub_runs p r s) \<Longrightarrow> c = r \<or> (c \<in> set s \<and> \<not> p c)"
  by (induction p r s rule: sub_runs.induct)
     (auto split: if_splits dest: set_dropWhileD)

lemma sub_runs_hd: "s \<noteq> [] \<Longrightarrow> \<not> p (hd s) \<Longrightarrow> hd (sub_runs p r s) = hd s"
  by (cases s) simp_all

lemma sub_runs_Nil: "sub_runs p r s = [] \<longleftrightarrow> s = []"
  by (cases s) simp_all

lemma sub_runs_successively:
  "p r \<Longrightarrow> successively (\<lambda>a b. \<not> (p a \<and> p b)) (sub_runs p r s)"
proof (induction p r s rule: sub_runs.induct)
  case (1 p r)
  show ?case by simp
next
  case (2 p r c cs)
  show ?case
  proof (cases "p c")
    case True
    have "\<not> p (hd (sub_runs p r (dropWhile p cs)))" if "sub_runs p r (dropWhile p cs) \<noteq> []"
    proof -
      from that have n: "dropWhile p cs \<noteq> []" by (simp add: sub_runs_Nil)
      then have "\<not> p (hd (dropWhile p cs))" by (rule hd_dropWhile)
      with n show ?thesis by (simp add: sub_runs_hd)
    qed
    with True 2 show ?thesis
      by (auto simp add: successively_Cons)
  next
    case False
    with 2 show ?thesis
      by (auto simp add: successively_Cons)
  qed
qed

lemma successively_dropWhile:
  "successively P xs \<Longrightarrow> successively P (dropWhile q xs)"
  using successively_append_iff [of P "takeWhile q xs" "dropWhile q xs"] by simp

lemma successively_take: "successively P xs \<Longrightarrow> successively P (take n xs)"
  using successively_append_iff [of P "take n xs" "drop n xs"] by simp

lemma last_dropWhile: "dropWhile q xs \<noteq> [] \<Longrightarrow> last (dropWhile q xs) = last xs"
  using last_appendR [of "dropWhile q xs" "takeWhile q xs"] by simp

lemma strip_chars_ends:
  assumes "strip_chars q z \<noteq> []"
  shows "\<not> q (hd (strip_chars q z)) \<and> \<not> q (last (strip_chars q z))"
proof -
  let ?u = "dropWhile q z"
  let ?w = "dropWhile q (rev ?u)"
  from assms have w: "?w \<noteq> []" by (simp add: strip_chars_def)
  then have u: "?u \<noteq> []" by (cases "dropWhile q z") simp_all
  have "last (strip_chars q z) = hd ?w"
    using w by (simp add: strip_chars_def last_rev)
  moreover have "\<not> q (hd ?w)" using w by (rule hd_dropWhile)
  moreover have "hd (strip_chars q z) = last ?w"
    using w by (simp add: strip_chars_def hd_rev)
  moreover have "last ?w = last (rev ?u)" using w by (rule last_dropWhile)
  moreover have "last (rev ?u) = hd ?u" using u by (simp add: last_rev)
  moreover have "\<not> q (hd ?u)" using u by (rule hd_dropWhile)
  ultimately show ?thesis by simp
qed

lemma strip_chars_set:
  assumes "c \<in> set (strip_chars q z)"
  shows "c \<in> set z"
proof -
  from assms have "c \<in> set (dropWhile q (rev (dropWhile q z)))"
    by (simp add: strip_chars_def)
  then have "c \<in> set (rev (dropWhile q z))" by (rule set_dropWhileD)
  then have "c \<in> set (dropWhile q z)" by simp
  then show ?thesis by (rule set_dropWhileD)
qed

lemma strip_chars_successively:
  assumes "successively (\<lambda>a b. \<not> (a = h \<and> b = h)) z"
  shows "successively (\<lambda>a b. \<not> (a = h \<and> b = h)) (strip_chars q z)"
proof -
  have sym: "(\<lambda>x y. \<not> (y = h \<and> x = h)) = (\<lambda>a b. \<not> (a = h \<and> b = h))"
    by (auto simp add: fun_eq_iff)
  have "successively (\<lambda>a b. \<not> (a = h \<and> b = h)) (dropWhile q z)"
    using assms by (rule successively_dropWhile)
  then have "successively (\<lambda>a b. \<not> (a = h \<and> b = h)) (rev (dropWhile q z))"
    by (simp only: successively_rev sym)
  then have "successively (\<lambda>a b. \<not> (a = h \<and> b = h)) (dropWhile q (rev (dropWhile q z)))"
    by (rule successively_dropWhile)
  then show ?thesis
    by (simp only: strip_chars_def successively_rev sym)
qed

lemma slugify_shape:
  "length (slugify E t) \<le> 80
   \<and> (\<forall>c \<in> set (slugify E t). c = CHR ''-'' \<or> (is_word c \<and> lower_char c = c))
   \<and> successively (\<lambda>a b. \<not> (a = CHR ''-'' \<and> b = CHR ''-'')) (slugify E t)
   \<and> (slugify E t \<noteq> [] \<longrightarrow> hd (slugify E t) \<noteq> CHR ''-'')
   \<and> (slugify E t \<noteq> [] \<and> length (slugify E t) < 80 \<longrightarrow> last (slugify E t) \<noteq> CHR ''-'')"
proof -
  let ?p = "\<lambda>c. c = CHR ''-'' \<or> is_space c"
  let ?t2 = "filter (\<lambda>c. is_word c \<or> is_space c \<or> c = CHR ''-'') (lower (unescape E t))"
  let ?t3 = "strip_chars (\<lambda>c. c = CHR ''-'') (sub_runs ?p (CHR ''-'') ?t2)"
  have s: "slugify E t = take 80 ?t3" by (simp add: slugify_def Let_def)
  have len: "length (slugify E t) \<le> 80" by (simp add: s)
  have chars: "c = CHR ''-'' \<or> (is_word c \<and> lower_char c = c)" if "c \<in> set (slugify E t)" for c
  proof -
    from that have "c \<in> set ?t3" unfolding s by (rule in_set_takeD)
    then have "c \<in> set (sub_runs ?p (CHR ''-'') ?t2)" by (rule strip_chars_set)
    then have "c = CHR ''-'' \<or> (c \<in> set ?t2 \<and> \<not> ?p c)" by (rule sub_runs_set)
    then show ?thesis
      by (auto simp add: lower_def lower_char_idem)
  qed
  have "successively (\<lambda>a b. \<not> (?p a \<and> ?p b)) (sub_runs ?p (CHR ''-'') ?t2)"
    by (rule sub_runs_successively) simp
  then have "successively (\<lambda>a b. \<not> (a = CHR ''-'' \<and> b = CHR ''-''))
      (sub_runs ?p (CHR ''-'') ?t2)"
    by (rule successively_mono) auto
  then have "successively (\<lambda>a b. \<not> (a = CHR ''-'' \<and> b = CHR ''-'')) ?t3"
    by (rule strip_chars_successively)
  then have succ: "successively (\<lambda>a b. \<not> (a = CHR ''-'' \<and> b = CHR ''-'')) (slugify E t)"
    unfolding s by (rule successively_take)
  have front: "hd (slugify E t) \<noteq> CHR ''-''" if "slugify E t \<noteq> []"
  proof -
    from that have n: "?t3 \<noteq> []" unfolding s by auto
    then have "hd ?t3 \<noteq> CHR ''-''" using strip_chars_ends by blast
    with n show ?thesis unfolding s by simp
  qed
  have tail_ok: "last (slugify E t) \<noteq> CHR ''-''"
    if "slugify E t \<noteq> [] \<and> length (slugify E t) < 80"
  proof -
    from that have "length ?t3 < 80" unfolding s by (simp add: min_def split: if_splits)
    then have e: "slugify E t = ?t3" unfolding s by simp
    with that have "?t3 \<noteq> []" by simp
    then have "last ?t3 \<noteq> CHR ''-''" using strip_chars_ends by blast
    with e show ?thesis by simp
  qed
  from len chars succ front tail_ok show ?thesis by blast
qed

lemma slugify_long_title:
  "take 80
     (strip_chars (\<lambda>c. c = CHR ''-'')
        (sub_runs (\<lambda>c. c = CHR ''-'' \<or> is_space c) (CHR ''-'')
           (filter (\<lambda>c. is_word c \<or> is_space c \<or> c = CHR ''-'')
              (lower (replicate 79 (CHR ''a'') @ '' b'')))))
   = replicate 79 (CHR ''a'') @ ''-''"
  by code_simp

text \<open>
  C9. The slug of a title is cut to 80 characters after the hyphens at its ends have been
  removed, not before: for the title of 79 letters \<open>a\<close>, a space and a \<open>b\<close>, which
  \<open>html.unescape\<close> leaves as it is, the slug is the 79 letters followed by a hyphen.
\<close>

theorem slugify_trailing_hyphen:
  "unescape E (replicate 79 (CHR ''a'') @ '' b'') = replicate 79 (CHR ''a'') @ '' b'' \<Longrightarrow>
   slugify E (replicate 79 (CHR ''a'') @ '' b'') = replicate 79 (CHR ''a'') @ ''-''
   \<and> length (slugify E (replicate 79 (CHR ''a'') @ '' b'')) = 80
   \<and> last (slugify E (replicate 79 (CHR ''a'') @ '' b'')) = CHR ''-''"
proof -
  assume "unescape E (replicate 79 (CHR ''a'') @ '' b'') = replicate 79 (CHR ''a'') @ '' b''"
  then have "slugify E (replicate 79 (CHR ''a'') @ '' b'') = replicate 79 (CHR ''a'') @ ''-''"
    by (simp only: slugify_def Let_def slugify_long_title)
  then show ?thesis by simp
qed

theorem slugify_trailing_hyphen_witness:
  "unescape sample_env (replicate 79 (CHR ''a'') @ '' b'') = replicate 79 (CHR ''a'') @ '' b''
   \<and> slugify sample_env (replicate 79 (CHR ''a'') @ '' b'') = replicate 79 (CHR ''a'') @ ''-''
   \<and> length (slugify sample_env (replicate 79 (CHR ''a'') @ '' b'')) = 80
   \<and> last (slugify sample_env (replicate 79 (CHR ''a'') @ '' b'')) = CHR ''-''"
proof -
  have h: "unescape sample_env (replicate 79 (CHR ''a'') @ '' b'')
      = replicate 79 (CHR ''a'') @ '' b''"
    by (simp add: sample_env_def)
  from slugify_trailing_hyphen [OF h] h show ?thesis by blast
qed

section \<open>Properties of the builder\<close>

subsection \<open>The order of the Articles\<close>

lemma sort_desc_sorted: "sorted_wrt (\<lambda>a b. f b \<le> f a) (sort_desc f xs)"
proof -
  have "sorted (map f (sort_key f (rev xs)))" by simp
  then have "sorted_wrt (\<lambda>a b. f a \<le> f b) (sort_key f (rev xs))"
    by (simp add: sorted_map)
  then show ?thesis
    by (simp add: sort_desc_def sorted_wrt_rev)
qed

lemma sort_desc_mset: "mset (sort_desc f xs) = mset xs"
  by (simp add: sort_desc_def)

lemma sort_desc_stable:
  "filter (\<lambda>a. f a = k) (sort_desc f xs) = filter (\<lambda>a. f a = k) xs"
  by (simp add: sort_desc_def sort_key_stable rev_filter [symmetric])

lemma render_pages_paths:
  "render_pages E tmpl arts = Inr pages \<Longrightarrow> map fst pages = map page_path arts"
proof (induction arts arbitrary: pages)
  case Nil
  then show ?case by simp
next
  case (Cons a rest)
  then show ?case
    by (auto split: sum.splits)
qed

lemma build_site_Inr:
  assumes "build_site E files = Inr s"
  shows "\<exists>index_tmpl index_html article_tmpl pages archive_html.
           get_template E ''index.html'' = Inr index_tmpl
           \<and> render E index_tmpl
                (IndexCtx (take 30 (fst (load_articles files))) (index_categories s))
               = Inr index_html
           \<and> render_pages E article_tmpl (fst (load_articles files)) = Inr pages
           \<and> index_articles s = take 30 (fst (load_articles files))
           \<and> files_written s =
               [(''index.html'', index_html)] @ pages
               @ [(''archive.html'', archive_html),
                  (''sitemap.xml'', sitemap_xml (sitemap_entries (fst (load_articles files)))),
                  (''robots.txt'', robots)]"
  using assms
  by (auto simp add: build_site_def Let_def split: prod.splits sum.splits)

lemma build_site_sample: "\<exists>s. build_site sample_env files = Inr s"
proof -
  have "\<exists>pages. render_pages sample_env tmpl arts = Inr pages" for tmpl arts
    by (induction arts) (auto simp add: sample_env_def)
  then obtain pages where
    "render_pages sample_env ''article.html'' (fst (load_articles files)) = Inr pages"
    by blast
  then show ?thesis
    by (cases "load_articles files") (simp add: build_site_def Let_def sample_env_def)
qed

lemma load_sample:
  "load_articles sample_files =
     (sample_loaded, [''  Skipping broken.md: mapping values are not allowed here''])"
  by (simp add: load_articles_def sample_files_def sample_loaded_def sort_desc_def get_def
        stored_new_def stored_old_def stored_bare_def stored_plain_def)

text \<open>
  C5. The Articles the builder loads are those of the files that load, in descending
  order of their \<open>date\<close> as a string, an absent date counting as the empty string: after
  an Article without a date only Articles with an empty date key follow. The index
  template is rendered with the first 30 Articles of that list.
\<close>

theorem load_articles_sorted:
  "load_articles files = (arts, printed) \<Longrightarrow>
   sorted_wrt (\<lambda>a b. get b ''date'' [] \<le> get a ''date'' []) arts
   \<and> mset arts = mset (fst (load_files (sort_desc fst files)))
   \<and> (i < j \<and> j < length arts \<and> (arts ! i) ''date'' = None \<longrightarrow>
        get (arts ! j) ''date'' [] = [])
   \<and> (build_site E files = Inr s \<longrightarrow>
        index_articles s = take 30 arts
        \<and> (\<exists>tmpl html. get_template E ''index.html'' = Inr tmpl
              \<and> render E tmpl (IndexCtx (take 30 arts) (index_categories s)) = Inr html
              \<and> hd (files_written s) = (''index.html'', html)))"
proof -
  assume l: "load_articles files = (arts, printed)"
  then have arts: "arts = sort_desc (\<lambda>a. get a ''date'' []) (fst (load_files (sort_desc fst files)))"
    by (auto simp add: load_articles_def split: prod.splits)
  have s: "sorted_wrt (\<lambda>a b. get b ''date'' [] \<le> get a ''date'' []) arts"
    unfolding arts by (rule sort_desc_sorted)
  have m: "mset arts = mset (fst (load_files (sort_desc fst files)))"
    unfolding arts by (rule sort_desc_mset)
  have d: "get (arts ! j) ''date'' [] = []"
    if "i < j \<and> j < length arts \<and> (arts ! i) ''date'' = None"
  proof -
    from that s have "get (arts ! j) ''date'' [] \<le> get (arts ! i) ''date'' []"
      by (simp add: sorted_wrt_iff_nth_less)
    moreover from that have "get (arts ! i) ''date'' [] = []"
      by (simp add: get_def)
    ultimately show ?thesis by simp
  qed
  have b: "index_articles s = take 30 arts
        \<and> (\<exists>tmpl html. get_template E ''index.html'' = Inr tmpl
              \<and> render E tmpl (IndexCtx (take 30 arts) (index_categories s)) = Inr html
              \<and> hd (files_written s) = (''index.html'', html))"
    if "build_site E files = Inr s"
    using build_site_Inr [OF that] l by auto
  from s m d b show ?thesis by blast
qed

theorem load_articles_sorted_witness:
  "load_articles sample_files =
     (sample_loaded, [''  Skipping broken.md: mapping values are not allowed here''])
   \<and> sorted_wrt (\<lambda>a b. get b ''date'' [] \<le> get a ''date'' []) sample_loaded
   \<and> (2::nat) < 3 \<and> 3 < length sample_loaded \<and> (sample_loaded ! 2) ''date'' = None
   \<and> get (sample_loaded ! 3) ''date'' [] = []
   \<and> (\<exists>s. build_site sample_env sample_files = Inr s
         \<and> index_articles s = take 30 sample_loaded
         \<and> (\<exists>tmpl html. get_template sample_env ''index.html'' = Inr tmpl
               \<and> render sample_env tmpl (IndexCtx (take 30 sample_loaded) (index_categories s))
                   = Inr html
               \<and> hd (files_written s) = (''index.html'', html)))"
proof -
  obtain s where b: "build_site sample_env sample_files = Inr s"
    using build_site_sample by blast
  have h: "(2::nat) < 3 \<and> 3 < length sample_loaded \<and> (sample_loaded ! 2) ''date'' = None"
    by (simp add: sample_loaded_def stored_bare_def)
  note A = load_articles_sorted [OF load_sample, where i = 2 and j = 3 and E = sample_env
      and s = s]
  from A have c1: "sorted_wrt (\<lambda>a b. get b ''date'' [] \<le> get a ''date'' []) sample_loaded"
    by blast
  from A h have c2: "get (sample_loaded ! 3) ''date'' [] = []" by blast
  from A b have c3: "index_articles s = take 30 sample_loaded
         \<and> (\<exists>tmpl html. get_template sample_env ''index.html'' = Inr tmpl
               \<and> render sample_env tmpl (IndexCtx (take 30 sample_loaded) (index_categories s))
                   = Inr html
               \<and> hd (files_written s) = (''index.html'', html))"
    by blast
  from load_sample c1 h c2 b c3 show ?thesis by blast
qed

subsection \<open>The sitemap\<close>

lemma foldl_snoc_map: "foldl (\<lambda>es a. es @ [f a]) init xs = init @ map f xs"
  by (induction xs arbitrary: init) simp_all




subsection \<open>An Article without a slug\<close>

text \<open>
  C10. For an Article without the key \<open>slug\<close>, the page is written to
  \<open>article/untitled.html\<close>, while its entry in the sitemap has the location
  \<open>SITE_URL/article/.html\<close>, which is not the address of that page. In a build that
  loads such an Article, the page is among the files written and the entry is in the
  sitemap.
\<close>

theorem missing_slug_mismatch:
  "a ''slug'' = None \<Longrightarrow>
   page_path a = ''article/untitled.html''
   \<and> sitemap_entry a = (SITE_URL @ ''/article/.html'', ''0.6'')
   \<and> fst (sitemap_entry a) \<noteq> SITE_URL @ ''/'' @ page_path a
   \<and> (build_site E files = Inr s \<and> a \<in> set (fst (load_articles files)) \<longrightarrow>
        (\<exists>html. (''article/untitled.html'', html) \<in> set (files_written s))
        \<and> (SITE_URL @ ''/article/.html'', ''0.6'')
            \<in> set (sitemap_entries (fst (load_articles files)))
        \<and> (''sitemap.xml'', sitemap_xml (sitemap_entries (fst (load_articles files))))
            \<in> set (files_written s))"
proof -
  assume n: "a ''slug'' = None"
  then have p: "page_path a = ''article/untitled.html''"
    by (simp add: page_path_def get_def)
  from n have e: "sitemap_entry a = (SITE_URL @ ''/article/.html'', ''0.6'')"
    by (simp add: sitemap_entry_def get_def)
  have d: "fst (sitemap_entry a) \<noteq> SITE_URL @ ''/'' @ page_path a"
    by (simp add: p e)
  have b: "(\<exists>html. (''article/untitled.html'', html) \<in> set (files_written s))
        \<and> (SITE_URL @ ''/article/.html'', ''0.6'')
            \<in> set (sitemap_entries (fst (load_articles files)))
        \<and> (''sitemap.xml'', sitemap_xml (sitemap_entries (fst (load_articles files))))
            \<in> set (files_written s)"
    if h: "build_site E files = Inr s \<and> a \<in> set (fst (load_articles files))"
  proof -
    from h build_site_Inr obtain index_html article_tmpl pages archive_html where
      r: "render_pages E article_tmpl (fst (load_articles files)) = Inr pages" and
      w: "files_written s =
               [(''index.html'', index_html)] @ pages
               @ [(''archive.html'', archive_html),
                  (''sitemap.xml'', sitemap_xml (sitemap_entries (fst (load_articles files)))),
                  (''robots.txt'', robots)]"
      by blast
    from h have "page_path a \<in> set (map page_path (fst (load_articles files)))" by simp
    with render_pages_paths [OF r] have "''article/untitled.html'' \<in> set (map fst pages)"
      by (simp add: p)
    then obtain html where "(''article/untitled.html'', html) \<in> set pages" by auto
    with w have 1: "\<exists>html. (''article/untitled.html'', html) \<in> set (files_written s)"
      by auto
    from h have "sitemap_entry a \<in> set (map sitemap_entry (fst (load_articles files)))"
      by simp
    then have 2: "(SITE_URL @ ''/article/.html'', ''0.6'')
            \<in> set (sitemap_entries (fst (load_articles files)))"
      by (simp add: e sitemap_entries_def foldl_snoc_map)
    from w have 3: "(''sitemap.xml'',
        sitemap_xml (sitemap_entries (fst (load_articles files)))) \<in> set (files_written s)"
      by simp
    from 1 2 3 show ?thesis by blast
  qed
  from p e d b show ?thesis by blast
qed

theorem missing_slug_mismatch_witness:
  "(stored_bare(''body'' \<mapsto> ''Written by hand.'')) ''slug'' = None
   \<and> page_path (stored_bare(''body'' \<mapsto> ''Written by hand.'')) = ''article/untitled.html''
   \<and> sitemap_entry (stored_bare(''body'' \<mapsto> ''Written by hand.''))
       = (SITE_URL @ ''/article/.html'', ''0.6'')
   \<and> stored_bare(''body'' \<mapsto> ''Written by hand.'') \<in> set (fst (load_articles sample_files))
   \<and> (\<exists>s. build_site sample_env sample_files = Inr s
         \<and> (\<exists>html. (''article/untitled.html'', html) \<in> set (files_written s))
         \<and> (SITE_URL @ ''/article/.html'', ''0.6'')
             \<in> set (sitemap_entries (fst (load_articles sample_files))))"
proof -
  let ?a = "stored_bare(''body'' \<mapsto> ''Written by hand.'')"
  obtain s where b: "build_site sample_env sample_files = Inr s"
    using build_site_sample by blast
  have h1: "?a ''slug'' = None" by (simp add: stored_bare_def)
  have h2: "?a \<in> set (fst (load_articles sample_files))"
    by (simp add: load_sample sample_loaded_def)
  note A = missing_slug_mismatch [where a = "?a" and E = sample_env
      and files = sample_files and s = s]
  from A h1 have c1: "page_path ?a = ''article/untitled.html''"
    and c2: "sitemap_entry ?a = (SITE_URL @ ''/article/.html'', ''0.6'')"
    by blast+
  from A h1 b h2 have c3: "(\<exists>html. (''article/untitled.html'', html) \<in> set (files_written s))
         \<and> (SITE_URL @ ''/article/.html'', ''0.6'')
             \<in> set (sitemap_entries (fst (load_articles sample_files)))"
    by blast
  from h1 c1 c2 h2 b c3 show ?thesis by blast
qed

end
